theory Spec2Isabelle
  imports Complex_Main
begin

section \<open>Data model of the asset service\<close>

text \<open>
  The entities are the fields of \<open>AssetEntity\<close> and \<open>AssetStackEntity\<close> that
  \<open>asset.service.ts\<close> reads. A nullable or optional field is an \<open>option\<close>.
  The members of a stack are only ever read through their \<open>id\<close>
  (\<open>stack.assets.map((a) => a.id)\<close>, \<open>stack.assets.length\<close>), so a stack holds the
  list of its member ids. Byte counts are JavaScript numbers; they are reals here.
\<close>

text \<open>
  Modelled from the spec: \<open>LibraryType\<close> of \<open>infra/entities\<close>, which is not among
  the sources; a library is internally managed (\<open>UPLOAD\<close>) or externally managed
  (\<open>EXTERNAL\<close>).
\<close>

datatype LibraryType = UPLOAD | EXTERNAL

record LibraryEntity =
  library_type :: LibraryType

record ExifEntity =
  fileSizeInByte :: "real option"

record AssetStackEntity =
  stack_id :: string
  primaryAssetId :: string
  stack_assets :: "string list"

record AssetEntity =
  asset_id :: string
  ownerId :: string
  originalPath :: string
  originalFileName :: string
  livePhotoVideoId :: "string option"
  isReadOnly :: bool
  stackId :: "string option"
  stack :: "AssetStackEntity option"
  library :: "LibraryEntity option"
  webpPath :: "string option"
  resizePath :: "string option"
  encodedVideoPath :: "string option"
  sidecarPath :: "string option"
  exifInfo :: "ExifEntity option"

text \<open>JavaScript truthiness of a nullable string: \<open>null\<close>, \<open>undefined\<close> and the empty
  string are falsy. \<open>truthyValue\<close> gives the string when it is truthy.\<close>

definition truthyValue :: "string option \<Rightarrow> string option" where
  "truthyValue s = (case s of None \<Rightarrow> None | Some v \<Rightarrow> if v \<noteq> [] then Some v else None)"

text \<open>\<open>!!flag\<close> for an optional boolean: \<open>undefined\<close> and \<open>false\<close> are falsy.\<close>

definition truthyFlag :: "bool option \<Rightarrow> bool" where
  "truthyFlag b = (case b of None \<Rightarrow> False | Some v \<Rightarrow> v)"

text \<open>\<open>asset.exifInfo?.fileSizeInByte || 0\<close>: a missing row, a missing size and the
  size zero all give zero.\<close>

definition fileSizeOrZero :: "AssetEntity \<Rightarrow> real" where
  "fileSizeOrZero a =
     (case exifInfo a of
        None \<Rightarrow> 0
      | Some e \<Rightarrow> (case fileSizeInByte e of None \<Rightarrow> 0 | Some n \<Rightarrow> n))"

section \<open>Jobs, notifications and repository calls\<close>

record IAssetDeletionJob =
  job_id :: string
  fromExternal :: "bool option"

record ISidecarWriteJob =
  sidecar_id :: string
  description :: "string option"
  dateTimeOriginal :: "string option"
  latitude :: "real option"
  longitude :: "real option"

datatype JobItem =
    ASSET_DELETION IAssetDeletionJob
  | DELETE_FILES "string option list"
  | SIDECAR_WRITE ISidecarWriteJob

datatype ClientEvent = ASSET_DELETE | ASSET_UPDATE | ASSET_TRASH | ASSET_RESTORE

datatype Payload = OneId string | ManyIds "string list"

text \<open>The fields of the bulk update that reach \<open>assetRepository.updateAll\<close>: the rest of
  the request after destructuring, plus \<open>stack: null\<close> and \<open>updatedAt\<close> where the
  service sets them.\<close>

record UpdateOptions =
  opt_stackParentId :: "string option"
  opt_isFavorite :: "bool option"
  opt_isArchived :: "bool option"
  opt_stackNull :: bool
  opt_updatedAt :: "nat option"

text \<open>
  Every call of the service on a repository that writes, enqueues or notifies is one
  effect; a run of an operation yields the list of its effects in the order the calls are
  issued. \<open>StackSave\<close> carries the partial entity of \<open>assetStackRepository.save\<close>: the
  stack id, and \<open>primaryAssetId\<close> and \<open>assets\<close> where the call gives them. Every
  repository call is taken to return: only the errors the service itself throws, and
  those of the access guard, are in the model.
\<close>

datatype Effect =
    AssetRemove AssetEntity
  | UserUpdateUsage string real
  | Send ClientEvent string Payload
  | Queue JobItem
  | StackCreate string "string list"
  | StackSave string "string option" "string list option"
  | StackDelete string
  | UpsertExif ISidecarWriteJob
  | AssetUpdateAll "string list" UpdateOptions

datatype error = Forbidden | NotFound | BadRequest

datatype Permission =
    Permission_ASSET_UPDATE
  | Permission_ASSET_DOWNLOAD
  | Permission_ALBUM_DOWNLOAD
  | Permission_TIMELINE_DOWNLOAD

record AuthDto =
  user_id :: string

text \<open>
  What the service reads from its collaborators. \<open>access\<close> is the access guard's
  verdict on a permission and a list of target ids. \<open>getById\<close> and \<open>getByIds\<close> are the
  asset store's lookups. \<open>getByAlbumId\<close> and \<open>getByUserId\<close> give the finite sequence of
  pages that \<open>usePagination\<close> yields over the store's paginated scans. \<open>now\<close> is
  the clock read by \<open>new Date()\<close>, and \<open>extname\<close> is the function of that name of the
  platform's \<open>path\<close> module. \<open>objectPrototype\<close> lists the properties that the
  platform's object literal \<open>{}\<close> inherits: a data property (a function, with the text
  its conversion to a string gives) or an accessor (with the text of the value its getter
  returns; its setter ignores a number or a string).
\<close>

datatype Inherited = DataProperty string | AccessorProperty string

record Repositories =
  access :: "AuthDto \<Rightarrow> Permission \<Rightarrow> string list \<Rightarrow> bool"
  getById :: "string \<Rightarrow> AssetEntity option"
  getByIds :: "string list \<Rightarrow> AssetEntity list"
  getByAlbumId :: "string \<Rightarrow> AssetEntity list list"
  getByUserId :: "string \<Rightarrow> AssetEntity list list"
  now :: nat
  extname :: "string \<Rightarrow> string"
  objectPrototype :: "string \<Rightarrow> Inherited option"

text \<open>
  Modelled from the spec: \<open>AccessCore.requirePermission\<close> of \<open>domain/access\<close>, which
  is not among the sources; the check succeeds or fails with \<open>Forbidden\<close>.
\<close>

definition requirePermission ::
  "Repositories \<Rightarrow> AuthDto \<Rightarrow> Permission \<Rightarrow> string list \<Rightarrow> error option" where
  "requirePermission repos auth permission targets =
     (if access repos auth permission targets then None else Some Forbidden)"

section \<open>Deletion of one asset\<close>

text \<open>
  \<open>AssetService.handleAssetDeletion\<close>. The asset store is read once, through
  \<open>getById\<close>; the result is the effects issued and the boolean returned.
  \<open>stackIds.find((a) => a !== id)\<close> is \<open>undefined\<close> when no member differs, hence
  the optional \<open>primaryAssetId\<close> of the save.
\<close>

definition replaceStackParent :: "AssetEntity \<Rightarrow> string \<Rightarrow> Effect list" where
  "replaceStackParent asset i =
     (case stack asset of
        None \<Rightarrow> []
      | Some s \<Rightarrow>
          if primaryAssetId s = i then
            (let stackIds = stack_assets s in
             if length stackIds > 2
             then [StackSave (stack_id s) (find (\<lambda>a. a \<noteq> i) stackIds) None]
             else [StackDelete (stack_id s)])
          else [])"

definition deletionFiles :: "AssetEntity \<Rightarrow> bool option \<Rightarrow> string option list" where
  "deletionFiles asset ext =
     [webpPath asset, resizePath asset, encodedVideoPath asset, sidecarPath asset]
     @ (if \<not> truthyFlag ext then [Some (originalPath asset)] else [])"

definition handleAssetDeletion ::
  "Repositories \<Rightarrow> IAssetDeletionJob \<Rightarrow> Effect list \<times> bool" where
  "handleAssetDeletion repos job =
     (case getById repos (job_id job) of
        None \<Rightarrow> ([], False)
      | Some asset \<Rightarrow>
          if \<not> truthyFlag (fromExternal job)
             \<and> (case library asset of None \<Rightarrow> True | Some l \<Rightarrow> library_type l = EXTERNAL)
          then ([], False)
          else
            (replaceStackParent asset (job_id job)
             @ [AssetRemove asset,
                UserUpdateUsage (ownerId asset) (- fileSizeOrZero asset),
                Send ASSET_DELETE (ownerId asset) (OneId (job_id job))]
             @ (case truthyValue (livePhotoVideoId asset) of
                  None \<Rightarrow> []
                | Some v \<Rightarrow> [Queue (ASSET_DELETION \<lparr>job_id = v, fromExternal = None\<rparr>)])
             @ (if \<not> isReadOnly asset
                then [Queue (DELETE_FILES (deletionFiles asset (fromExternal job)))]
                else []),
             True))"

section \<open>Download archives\<close>

record DownloadInfoDto =
  dl_assetIds :: "string list option"
  albumId :: "string option"
  userId :: "string option"
  archiveSize :: "real option"

record DownloadArchiveInfo =
  size_bytes :: real
  assetIds :: "string list"

record DownloadResponseDto =
  totalSize :: real
  archives :: "DownloadArchiveInfo list"

text \<open>
  Modelled from the spec: \<open>HumanReadableSize.GiB\<close> of \<open>domain.util\<close>, which is not
  among the sources; the default target is four of this unit.
\<close>

definition GiB :: real where
  "GiB = 1024 * 1024 * 1024"

text \<open>\<open>dto.archiveSize || HumanReadableSize.GiB * 4\<close>: an absent size and the size
  zero give the default.\<close>

definition targetSizeOf :: "DownloadInfoDto \<Rightarrow> real" where
  "targetSizeOf dto =
     (case archiveSize dto of None \<Rightarrow> GiB * 4 | Some n \<Rightarrow> if n = 0 then GiB * 4 else n)"

text \<open>
  \<open>getDownloadAssets\<close>: the selection is by id list, album or user, in that order; an
  id list is one page. An array is truthy even when empty.
\<close>

definition getDownloadAssets ::
  "Repositories \<Rightarrow> AuthDto \<Rightarrow> DownloadInfoDto \<Rightarrow> error + AssetEntity list list" where
  "getDownloadAssets repos auth dto =
     (case dl_assetIds dto of
        Some wanted \<Rightarrow>
          (case requirePermission repos auth Permission_ASSET_DOWNLOAD wanted of
             Some e \<Rightarrow> Inl e
           | None \<Rightarrow> Inr [getByIds repos wanted])
      | None \<Rightarrow>
          (case truthyValue (albumId dto) of
             Some album \<Rightarrow>
               (case requirePermission repos auth Permission_ALBUM_DOWNLOAD [album] of
                  Some e \<Rightarrow> Inl e
                | None \<Rightarrow> Inr (getByAlbumId repos album))
           | None \<Rightarrow>
               (case truthyValue (userId dto) of
                  Some user \<Rightarrow>
                    (case requirePermission repos auth Permission_TIMELINE_DOWNLOAD [user] of
                       Some e \<Rightarrow> Inl e
                     | None \<Rightarrow> Inr (getByUserId repos user))
                | None \<Rightarrow> Inl BadRequest)))"

text \<open>
  The loop of \<open>getDownloadInfo\<close> pushes the object \<open>archive\<close> onto \<open>archives\<close>
  and may go on writing to it, so the archive objects live in a store: \<open>objects\<close> is the
  list of all archive objects allocated so far, \<open>archive\<close> is the address of the
  running one and \<open>archive_refs\<close> is the array \<open>archives\<close>, a list of addresses.
\<close>

record ArchiveStore =
  objects :: "DownloadArchiveInfo list"
  archive_refs :: "nat list"
  archive :: nat

definition initialStore :: ArchiveStore where
  "initialStore =
     \<lparr>objects = [\<lparr>size_bytes = 0, assetIds = []\<rparr>], archive_refs = [], archive = 0\<rparr>"

text \<open>The body of the inner loop: add the asset to the running archive; when the size
  now exceeds the target, push the running archive and allocate a new empty one. Sizes
  are JavaScript numbers (doubles) in the code and reals here: the two agree wherever
  every sum taken is exact in doubles, as it is for whole byte counts with a total of
  at most \<open>2^53\<close>; beyond that the code rounds each sum and its sizes, and the
  comparisons made on them, can differ from the ones here.\<close>

definition addAsset :: "real \<Rightarrow> ArchiveStore \<Rightarrow> AssetEntity \<Rightarrow> ArchiveStore" where
  "addAsset targetSize st asset =
     (let cur = objects st ! archive st;
          cur' = \<lparr>size_bytes = size_bytes cur + fileSizeOrZero asset,
                  assetIds = assetIds cur @ [asset_id asset]\<rparr>;
          objs = (objects st)[archive st := cur']
      in if size_bytes cur' > targetSize
         then \<lparr>objects = objs @ [\<lparr>size_bytes = 0, assetIds = []\<rparr>],
               archive_refs = archive_refs st @ [archive st],
               archive = length objs\<rparr>
         else st\<lparr>objects := objs\<rparr>)"

text \<open>The ids of the motion parts of a page, and the page as the inner loop walks it: the
  motion parts the store returns are pushed onto the end of the page.\<close>

definition motionIds :: "AssetEntity list \<Rightarrow> string list" where
  "motionIds assets = [i. Some i \<leftarrow> map livePhotoVideoId assets, i \<noteq> []]"

definition withMotionParts :: "Repositories \<Rightarrow> AssetEntity list \<Rightarrow> AssetEntity list" where
  "withMotionParts repos assets =
     (if length (motionIds assets) > 0
      then assets @ getByIds repos (motionIds assets)
      else assets)"

text \<open>The body of the outer loop, one page: after the page's assets, the running
  archive is pushed when it holds an id.\<close>

definition addPage ::
  "Repositories \<Rightarrow> real \<Rightarrow> ArchiveStore \<Rightarrow> AssetEntity list \<Rightarrow> ArchiveStore" where
  "addPage repos targetSize st assets =
     (let st' = foldl (addAsset targetSize) st (withMotionParts repos assets)
      in if length (assetIds (objects st' ! archive st')) > 0
         then st'\<lparr>archive_refs := archive_refs st' @ [archive st']\<rparr>
         else st')"

definition response :: "ArchiveStore \<Rightarrow> DownloadResponseDto" where
  "response st =
     (let out = map (\<lambda>r. objects st ! r) (archive_refs st)
      in \<lparr>totalSize = foldl (\<lambda>total item. total + size_bytes item) 0 out,
          archives = out\<rparr>)"

definition downloadInfoOfPages ::
  "Repositories \<Rightarrow> real \<Rightarrow> AssetEntity list list \<Rightarrow> DownloadResponseDto" where
  "downloadInfoOfPages repos targetSize pages =
     response (foldl (addPage repos targetSize) initialStore pages)"

definition getDownloadInfo ::
  "Repositories \<Rightarrow> AuthDto \<Rightarrow> DownloadInfoDto \<Rightarrow> error + DownloadResponseDto" where
  "getDownloadInfo repos auth dto =
     (case getDownloadAssets repos auth dto of
        Inl e \<Rightarrow> Inl e
      | Inr pages \<Rightarrow> Inr (downloadInfoOfPages repos (targetSizeOf dto) pages))"

subsection \<open>The zip of a list of assets\<close>

datatype ZipCall = AddFile string string | Finalize

text \<open>The decimal digits of a count, as a template literal prints it.\<close>

definition digitChar :: "nat \<Rightarrow> char" where
  "digitChar d = ''0123456789'' ! d"

function showNat :: "nat \<Rightarrow> string" where
  "showNat n = (if n < 10 then [digitChar n] else showNat (n div 10) @ [digitChar (n mod 10)])"
  by pat_completeness auto
termination
  by (relation "measure (\<lambda>n. n)") auto

definition combinedName :: "(string \<Rightarrow> string) \<Rightarrow> AssetEntity \<Rightarrow> string" where
  "combinedName ext asset = originalFileName asset @ ext (originalPath asset)"

text \<open>
  The object \<open>paths\<close> of \<open>downloadArchive\<close>. It is declared to hold numbers, but it
  is an object literal: a key it does not own is looked up in its prototype, and adding
  \<open>1\<close> to what is found there gives a string. So a value read from \<open>paths\<close> is a
  number, a string, or an inherited object known by the text its conversion to a string
  gives; a value stored in it is a number or a string.
\<close>

datatype PathValue = Count nat | Text string | Object string

text \<open>\<open>paths[filename] || 0\<close>: the own property if there is one, else the inherited one,
  else \<open>undefined\<close>; the number zero, the empty string and \<open>undefined\<close> are falsy.\<close>

definition readCount ::
  "(string \<Rightarrow> Inherited option) \<Rightarrow> (string \<rightharpoonup> PathValue) \<Rightarrow> string \<Rightarrow> PathValue" where
  "readCount proto paths filename =
     (case paths filename of
        Some (Text s) \<Rightarrow> if s = [] then Count 0 else Text s
      | Some v \<Rightarrow> v
      | None \<Rightarrow>
          (case proto filename of
             None \<Rightarrow> Count 0
           | Some (DataProperty shown) \<Rightarrow> Object shown
           | Some (AccessorProperty shown) \<Rightarrow> Object shown))"

text \<open>\<open>count + 1\<close>: addition on a number, concatenation with \<open>''1''\<close> on a string or an
  object.\<close>

definition plusOne :: "PathValue \<Rightarrow> PathValue" where
  "plusOne v =
     (case v of Count c \<Rightarrow> Count (c + 1) | Text s \<Rightarrow> Text (s @ ''1'')
      | Object shown \<Rightarrow> Text (shown @ ''1''))"

text \<open>\<open>paths[filename] = value\<close>: an inherited accessor takes the assignment (and
  ignores the value, which is never an object here); otherwise the object gets or keeps
  an own property.\<close>

definition writeCount ::
  "(string \<Rightarrow> Inherited option) \<Rightarrow> (string \<rightharpoonup> PathValue) \<Rightarrow> string \<Rightarrow> PathValue
     \<Rightarrow> (string \<rightharpoonup> PathValue)" where
  "writeCount proto paths filename v =
     (case paths filename of
        Some _ \<Rightarrow> paths(filename \<mapsto> v)
      | None \<Rightarrow>
          (case proto filename of
             Some (AccessorProperty _) \<Rightarrow> paths
           | _ \<Rightarrow> paths(filename \<mapsto> v)))"

text \<open>The count as the template literal prints it.\<close>

definition shown :: "PathValue \<Rightarrow> string" where
  "shown v = (case v of Count c \<Rightarrow> showNat c | Text s \<Rightarrow> s | Object t \<Rightarrow> t)"

text \<open>The loop of \<open>downloadArchive\<close>; \<open>count !== 0\<close> is false for the number zero
  only.\<close>

fun addFiles ::
  "(string \<Rightarrow> string) \<Rightarrow> (string \<Rightarrow> Inherited option) \<Rightarrow> (string \<rightharpoonup> PathValue)
     \<Rightarrow> AssetEntity list \<Rightarrow> ZipCall list" where
  "addFiles ext proto paths [] = []"
| "addFiles ext proto paths (asset # rest) =
     (let e = ext (originalPath asset);
          filename = originalFileName asset @ e;
          count = readCount proto paths filename;
          paths' = writeCount proto paths filename (plusOne count);
          filename' = (if count \<noteq> Count 0
                       then originalFileName asset @ ''+'' @ shown count @ e
                       else filename)
      in AddFile (originalPath asset) filename' # addFiles ext proto paths' rest)"

definition downloadArchive ::
  "Repositories \<Rightarrow> AuthDto \<Rightarrow> string list \<Rightarrow> error + ZipCall list" where
  "downloadArchive repos auth wanted =
     (case requirePermission repos auth Permission_ASSET_DOWNLOAD wanted of
        Some e \<Rightarrow> Inl e
      | None \<Rightarrow>
          Inr (addFiles (extname repos) (objectPrototype repos) Map.empty
                 (getByIds repos wanted)
               @ [Finalize]))"

section \<open>Bulk update and the stack mutations\<close>

record AssetBulkUpdateDto =
  ids :: "string list"
  removeParent :: "bool option"
  stackParentId :: "string option"
  isFavorite :: "bool option"
  isArchived :: "bool option"
  dto_dateTimeOriginal :: "string option"
  dto_latitude :: "real option"
  dto_longitude :: "real option"

text \<open>\<open>[...new Set(xs)]\<close>: the distinct elements in the order of their first
  occurrence.\<close>

definition newSet :: "'a list \<Rightarrow> 'a list" where
  "newSet xs = foldl (\<lambda>acc x. if x \<in> set acc then acc else acc @ [x]) [] xs"

text \<open>\<open>updateMetadata\<close>: the fields that are not \<open>undefined\<close> are written to the exif
  row and a sidecar job is queued, when there is such a field.\<close>

definition updateMetadata :: "ISidecarWriteJob \<Rightarrow> Effect list" where
  "updateMetadata dto =
     (if description dto \<noteq> None \<or> dateTimeOriginal dto \<noteq> None
         \<or> latitude dto \<noteq> None \<or> longitude dto \<noteq> None
      then [UpsertExif dto, Queue (SIDECAR_WRITE dto)]
      else [])"

text \<open>The loop \<open>for (const id of ids) await this.updateMetadata(...)\<close> of
  \<open>updateAll\<close>, which passes no description.\<close>

definition updateMetadataAll :: "AssetBulkUpdateDto \<Rightarrow> string list \<Rightarrow> Effect list" where
  "updateMetadataAll dto allIds =
     concat (map (\<lambda>i. updateMetadata
                    \<lparr>sidecar_id = i, description = None,
                     dateTimeOriginal = dto_dateTimeOriginal dto,
                     latitude = dto_latitude dto, longitude = dto_longitude dto\<rparr>) allIds)"

text \<open>The common tail of \<open>updateAll\<close>, from the loop over \<open>ids\<close> to the
  notification.\<close>

definition finishUpdate ::
  "AuthDto \<Rightarrow> AssetBulkUpdateDto \<Rightarrow> string list \<Rightarrow> UpdateOptions \<Rightarrow> string list \<Rightarrow> Effect list"
  where
  "finishUpdate auth dto allIds options stackIdsToDelete =
     updateMetadataAll dto allIds
     @ [AssetUpdateAll allIds options]
     @ map StackDelete stackIdsToDelete
     @ [Send ASSET_UPDATE (user_id auth) (ManyIds allIds)]"

definition restOptions :: "AssetBulkUpdateDto \<Rightarrow> UpdateOptions" where
  "restOptions dto =
     \<lparr>opt_stackParentId = stackParentId dto, opt_isFavorite = isFavorite dto,
      opt_isArchived = isArchived dto, opt_stackNull = False, opt_updatedAt = None\<rparr>"

text \<open>The branch \<open>if (removeParent)\<close>.\<close>

definition removeParentBranch ::
  "Repositories \<Rightarrow> AuthDto \<Rightarrow> AssetBulkUpdateDto \<Rightarrow> Effect list \<times> error option" where
  "removeParentBranch repos auth dto =
     (let options = (restOptions dto)\<lparr>opt_stackNull := True\<rparr>;
          assets = getByIds repos (ids dto);
          stackIdsToDelete = newSet [s. Some s \<leftarrow> map stackId assets, s \<noteq> []];
          allIds = ids dto
            @ newSet [primaryAssetId s. Some s \<leftarrow> map stack assets, primaryAssetId s \<noteq> []]
      in (finishUpdate auth dto allIds options stackIdsToDelete, None))"

text \<open>The stack write of the branch \<open>else if (options.stackParentId)\<close>: a new stack
  when the parent has none, else a save of the parent's stack.\<close>

definition writeStack :: "AssetEntity \<Rightarrow> string list \<Rightarrow> Effect" where
  "writeStack primaryAsset allIds =
     (case stack primaryAsset of
        None \<Rightarrow> StackCreate (asset_id primaryAsset) allIds
      | Some s \<Rightarrow> StackSave (stack_id s) (Some (asset_id primaryAsset)) (Some allIds))"

definition stackParentBranch ::
  "Repositories \<Rightarrow> AuthDto \<Rightarrow> AssetBulkUpdateDto \<Rightarrow> string \<Rightarrow> Effect list \<times> error option"
  where
  "stackParentBranch repos auth dto parent =
     (case requirePermission repos auth Permission_ASSET_UPDATE [parent] of
        Some e \<Rightarrow> ([], Some e)
      | None \<Rightarrow>
          (case getById repos parent of
             None \<Rightarrow> ([], Some NotFound)
           | Some primaryAsset \<Rightarrow>
               (let ids1 = ids dto @ [parent];
                    assets = getByIds repos ids1;
                    stackIdsToDelete =
                      newSet [s. Some s \<leftarrow> map stackId assets, s \<noteq> [],
                                 map_option stack_id (stack primaryAsset) \<noteq> Some s];
                    allIds = ids1
                      @ concat [stack_assets s. Some s \<leftarrow> map stack assets,
                                                length (stack_assets s) > 0];
                    options = (restOptions dto)
                      \<lparr>opt_stackParentId := None, opt_updatedAt := Some (now repos)\<rparr>
                in (writeStack primaryAsset allIds
                      # finishUpdate auth dto allIds options stackIdsToDelete,
                    None))))"

text \<open>\<open>AssetService.updateAll\<close>: the effects issued, and the error thrown if any.
  \<open>throw new Error('Asset not found')\<close> is the error \<open>NotFound\<close>.\<close>

definition updateAll ::
  "Repositories \<Rightarrow> AuthDto \<Rightarrow> AssetBulkUpdateDto \<Rightarrow> Effect list \<times> error option" where
  "updateAll repos auth dto =
     (case requirePermission repos auth Permission_ASSET_UPDATE (ids dto) of
        Some e \<Rightarrow> ([], Some e)
      | None \<Rightarrow>
          if truthyFlag (removeParent dto) then removeParentBranch repos auth dto
          else
            (case truthyValue (stackParentId dto) of
               Some parent \<Rightarrow> stackParentBranch repos auth dto parent
             | None \<Rightarrow> (finishUpdate auth dto (ids dto) (restOptions dto) [], None)))"

section \<open>Predicates of the statements\<close>

text \<open>An asset is deletion-eligible for a job when the job comes from an external-library
  sweep, or the asset has a library that is not externally managed.\<close>

definition eligible :: "AssetEntity \<Rightarrow> IAssetDeletionJob \<Rightarrow> bool" where
  "eligible asset job =
     (truthyFlag (fromExternal job)
      \<or> (case library asset of None \<Rightarrow> False | Some l \<Rightarrow> library_type l \<noteq> EXTERNAL))"

text \<open>The ids pushed so far, in the order of the pushes: those of the archives on the
  output list, then those of the running archive. The invariant of the inner loop: the
  running archive is allocated and is not yet on the output list.\<close>

definition pushedIds :: "ArchiveStore \<Rightarrow> string list" where
  "pushedIds st =
     concat (map (\<lambda>r. assetIds (objects st ! r)) (archive_refs st))
     @ assetIds (objects st ! archive st)"

definition runningIsFresh :: "ArchiveStore \<Rightarrow> bool" where
  "runningIsFresh st =
     (archive st < length (objects st) \<and> list_all (\<lambda>r. r < archive st) (archive_refs st))"

text \<open>How many assets before position \<open>i\<close> have the combined name of the asset at
  position \<open>i\<close>.\<close>

definition earlier :: "(string \<Rightarrow> string) \<Rightarrow> AssetEntity list \<Rightarrow> nat \<Rightarrow> nat" where
  "earlier ext assets i =
     length (filter (\<lambda>b. combinedName ext b = combinedName ext (assets ! i)) (take i assets))"

text \<open>The effects \<open>es\<close> hold the write of the destination stack with the given parent
  as primary and the given members.\<close>

definition stackWritten :: "AssetEntity \<Rightarrow> string list \<Rightarrow> Effect list \<Rightarrow> bool" where
  "stackWritten primaryAsset members es =
     (case stack primaryAsset of
        None \<Rightarrow> StackCreate (asset_id primaryAsset) members \<in> set es
      | Some st \<Rightarrow>
          StackSave (stack_id st) (Some (asset_id primaryAsset)) (Some members) \<in> set es)"

text \<open>The ids held by all archive objects, in the order of their allocation; the running
  archive is always the one allocated last.\<close>

definition allocatedIds :: "ArchiveStore \<Rightarrow> string list" where
  "allocatedIds st = concat (map assetIds (objects st))"

definition runningIsLast :: "ArchiveStore \<Rightarrow> bool" where
  "runningIsLast st = (objects st \<noteq> [] \<and> archive st = length (objects st) - 1)"

text \<open>The shape of a successful run of \<open>updateAll\<close>: effects \<open>pre\<close> without a stack
  delete, the bulk update, the stack deletes, the notification.\<close>

abbreviation shaped ::
  "Repositories \<Rightarrow> AuthDto \<Rightarrow> AssetBulkUpdateDto \<Rightarrow> Effect list \<Rightarrow> bool" where
  "shaped repos auth dto es \<equiv>
   (\<exists>pre allIds options dels.
      es = (pre @ [AssetUpdateAll allIds options]) @ map StackDelete dels
            @ [Send ASSET_UPDATE (user_id auth) (ManyIds allIds)]
      \<and> list_all (\<lambda>e. \<forall>x. e \<noteq> StackDelete x) pre
      \<and> (if truthyFlag (removeParent dto) then opt_stackNull options
          else dels = [] \<or>
            (\<exists>parent primaryAsset. truthyValue (stackParentId dto) = Some parent
               \<and> getById repos parent = Some primaryAsset
               \<and> stackWritten primaryAsset allIds pre)))"

text \<open>The effect is a file-removal job; the effect is a write of a stack (a create or a
  save).\<close>

fun isFileRemoval :: "Effect \<Rightarrow> bool" where
  "isFileRemoval (Queue (DELETE_FILES files)) = True"
| "isFileRemoval e = False"

fun isStackWrite :: "Effect \<Rightarrow> bool" where
  "isStackWrite (StackCreate primary members) = True"
| "isStackWrite (StackSave i primary members) = True"
| "isStackWrite e = False"

text \<open>The number held for a name that the prototype does not list.\<close>

definition held :: "(string \<rightharpoonup> PathValue) \<Rightarrow> string \<Rightarrow> nat option" where
  "held paths name =
     (case paths name of None \<Rightarrow> Some 0 | Some (Count c) \<Rightarrow> Some c | Some _ \<Rightarrow> None)"








section \<open>Example data\<close>

definition plainAsset :: "string \<Rightarrow> AssetEntity" where
  "plainAsset i =
     \<lparr>asset_id = i, ownerId = ''user-1'', originalPath = ''/upload/'' @ i @ ''.jpg'',
      originalFileName = i, livePhotoVideoId = None, isReadOnly = False,
      stackId = None, stack = None, library = Some \<lparr>library_type = UPLOAD\<rparr>,
      webpPath = Some (''/thumbs/'' @ i @ ''.webp''),
      resizePath = Some (''/thumbs/'' @ i @ ''.jpeg''),
      encodedVideoPath = None, sidecarPath = None,
      exifInfo = Some \<lparr>fileSizeInByte = Some 100\<rparr>\<rparr>"

definition sized :: "string \<Rightarrow> real \<Rightarrow> AssetEntity" where
  "sized i n = (plainAsset i)\<lparr>exifInfo := Some \<lparr>fileSizeInByte = Some n\<rparr>\<rparr>"

text \<open>
  Modelled from the platform's documentation: \<open>path.extname\<close> on POSIX paths. The
  extension runs from the last dot of the last segment of the path (trailing slashes
  apart) to the end of that segment; there is none when the segment has no dot, starts
  with its only dot, or is \<open>..\<close>.
\<close>

definition posixExtname :: "string \<Rightarrow> string" where
  "posixExtname p =
     (let trimmed = rev (dropWhile (\<lambda>c. c = CHR ''/'') (rev p));
          segment = rev (takeWhile (\<lambda>c. c \<noteq> CHR ''/'') (rev trimmed));
          tail = rev (takeWhile (\<lambda>c. c \<noteq> CHR ''.'') (rev segment))
      in if CHR ''.'' \<notin> set segment then []
         else if length segment = Suc (length tail) then []
         else if segment = ''..'' then []
         else CHR ''.'' # tail)"

text \<open>
  Modelled from the platform: the properties an object literal inherits, and the text
  their values convert to.
\<close>

definition nodePrototype :: "string \<Rightarrow> Inherited option" where
  "nodePrototype =
     map_of
       [(''constructor'', DataProperty ''function Object() { [native code] }''),
        (''hasOwnProperty'', DataProperty ''function hasOwnProperty() { [native code] }''),
        (''isPrototypeOf'', DataProperty ''function isPrototypeOf() { [native code] }''),
        (''propertyIsEnumerable'',
           DataProperty ''function propertyIsEnumerable() { [native code] }''),
        (''toLocaleString'', DataProperty ''function toLocaleString() { [native code] }''),
        (''toString'', DataProperty ''function toString() { [native code] }''),
        (''valueOf'', DataProperty ''function valueOf() { [native code] }''),
        (''__defineGetter__'', DataProperty ''function __defineGetter__() { [native code] }''),
        (''__defineSetter__'', DataProperty ''function __defineSetter__() { [native code] }''),
        (''__lookupGetter__'', DataProperty ''function __lookupGetter__() { [native code] }''),
        (''__lookupSetter__'', DataProperty ''function __lookupSetter__() { [native code] }''),
        (''__proto__'', AccessorProperty ''[object Object]'')]"

text \<open>A store holding the given rows, with an access guard that grants everything.\<close>

definition storeOf :: "AssetEntity list \<Rightarrow> Repositories" where
  "storeOf rows =
     \<lparr>access = (\<lambda>_ _ _. True),
      getById = (\<lambda>i. find (\<lambda>a. asset_id a = i) rows),
      getByIds = (\<lambda>wanted. filter (\<lambda>a. asset_id a \<in> set wanted) rows),
      getByAlbumId = (\<lambda>_. []), getByUserId = (\<lambda>_. []), now = 0,
      extname = posixExtname, objectPrototype = nodePrototype\<rparr>"

definition user1 :: AuthDto where
  "user1 = \<lparr>user_id = ''user-1''\<rparr>"

definition stackOf3 :: AssetStackEntity where
  "stackOf3 =
     \<lparr>stack_id = ''s1'', primaryAssetId = ''a1'', stack_assets = [''a1'', ''a2'', ''a3'']\<rparr>"

definition stackOf2 :: AssetStackEntity where
  "stackOf2 = \<lparr>stack_id = ''s2'', primaryAssetId = ''b1'', stack_assets = [''b1'', ''b2'']\<rparr>"

definition primaryOf3 :: AssetEntity where
  "primaryOf3 = (plainAsset ''a1'')\<lparr>stackId := Some ''s1'', stack := Some stackOf3\<rparr>"

definition primaryOf2 :: AssetEntity where
  "primaryOf2 = (plainAsset ''b1'')\<lparr>stackId := Some ''s2'', stack := Some stackOf2\<rparr>"

definition memberOf2 :: AssetEntity where
  "memberOf2 = (plainAsset ''b2'')\<lparr>stackId := Some ''s2'', stack := Some stackOf2\<rparr>"

definition externalPhoto :: AssetEntity where
  "externalPhoto =
     (plainAsset ''e1'')\<lparr>library := Some \<lparr>library_type = EXTERNAL\<rparr>,
                         livePhotoVideoId := Some ''e2''\<rparr>"

definition externalMotion :: AssetEntity where
  "externalMotion = (plainAsset ''e2'')\<lparr>library := Some \<lparr>library_type = EXTERNAL\<rparr>\<rparr>"

definition readOnlyPhoto :: AssetEntity where
  "readOnlyPhoto = (plainAsset ''r1'')\<lparr>isReadOnly := True\<rparr>"

definition noLibraryPhoto :: AssetEntity where
  "noLibraryPhoto = (plainAsset ''n1'')\<lparr>library := None\<rparr>"

definition exampleRows :: "AssetEntity list" where
  "exampleRows =
     [primaryOf3, primaryOf2, memberOf2, externalPhoto, externalMotion, readOnlyPhoto,
      noLibraryPhoto]"



definition byIds :: "string list \<Rightarrow> DownloadInfoDto" where
  "byIds wanted = \<lparr>dl_assetIds = Some wanted, albumId = None, userId = None, archiveSize = None\<rparr>"

definition sameNameRows :: "AssetEntity list" where
  "sameNameRows =
     [(plainAsset ''x1'')\<lparr>originalFileName := ''IMG'', originalPath := ''/upload/1/IMG.jpg''\<rparr>,
      (plainAsset ''x2'')\<lparr>originalFileName := ''IMG'', originalPath := ''/upload/2/IMG.jpg''\<rparr>,
      (plainAsset ''x3'')\<lparr>originalFileName := ''DSC'', originalPath := ''/upload/3/DSC.jpg''\<rparr>,
      (plainAsset ''x4'')\<lparr>originalFileName := ''IMG'', originalPath := ''/upload/4/IMG.jpg''\<rparr>]"


definition bulk :: "string list \<Rightarrow> AssetBulkUpdateDto" where
  "bulk wanted =
     \<lparr>ids = wanted, removeParent = None, stackParentId = None, isFavorite = None,
      isArchived = None, dto_dateTimeOriginal = None, dto_latitude = None,
      dto_longitude = None\<rparr>"

text \<open>The store of the example rows behind an access guard that refuses the single
  target \<open>a1\<close>.\<close>

definition guarded :: Repositories where
  "guarded = (storeOf exampleRows)\<lparr>access := (\<lambda>_ _ targets. targets \<noteq> [''a1''])\<rparr>"

definition livePage :: "AssetEntity list" where
  "livePage = [(sized ''p'' 1)\<lparr>livePhotoVideoId := Some ''m''\<rparr>, sized ''q'' 1]"

text \<open>A store whose album scan arrives in two pages.\<close>

definition twoPages :: Repositories where
  "twoPages = (storeOf [])\<lparr>getByAlbumId := (\<lambda>_. [[sized ''1'' 1], [sized ''2'' 1]])\<rparr>"

definition byAlbum :: "string \<Rightarrow> DownloadInfoDto" where
  "byAlbum album =
     \<lparr>dl_assetIds = None, albumId = Some album, userId = None, archiveSize = None\<rparr>"

section \<open>Deletion of one asset: theorems\<close>

lemma truthyValue_simps [simp]:
  "truthyValue None = None"
  "truthyValue (Some v) = (if v \<noteq> [] then Some v else None)"
  by (simp_all add: truthyValue_def)

lemmas example_defs =
  storeOf_def exampleRows_def plainAsset_def sized_def user1_def stackOf3_def stackOf2_def
  primaryOf3_def primaryOf2_def memberOf2_def externalPhoto_def externalMotion_def
  readOnlyPhoto_def noLibraryPhoto_def

text \<open>
  C4. A deletion job whose id does not resolve returns false with no effect at all (no
  asset removed, no usage update, nothing thrown); so does a job without the
  \<open>fromExternal\<close> flag for an asset with no library or an externally managed one. The
  job returns true exactly when it removes the asset row, and a job that returns false
  has no effect.
\<close>

theorem handleAssetDeletion_skip_or_purge:
  "(getById repos (job_id job) = None \<longrightarrow> handleAssetDeletion repos job = ([], False))
   \<and> (\<forall>asset. getById repos (job_id job) = Some asset \<and> \<not> truthyFlag (fromExternal job)
         \<and> (library asset = None \<or> (\<exists>l. library asset = Some l \<and> library_type l = EXTERNAL))
        \<longrightarrow> handleAssetDeletion repos job = ([], False))
   \<and> (snd (handleAssetDeletion repos job)
        \<longleftrightarrow> (\<exists>asset. AssetRemove asset \<in> set (fst (handleAssetDeletion repos job))))
   \<and> (\<not> snd (handleAssetDeletion repos job) \<longrightarrow> fst (handleAssetDeletion repos job) = [])"
  by (auto simp: handleAssetDeletion_def split: option.splits)

theorem handleAssetDeletion_skip_or_purge_witness:
  "getById (storeOf exampleRows) ''zz'' = None
   \<and> handleAssetDeletion (storeOf exampleRows) \<lparr>job_id = ''zz'', fromExternal = None\<rparr>
       = ([], False)
   \<and> getById (storeOf exampleRows) ''e2'' = Some externalMotion
   \<and> library externalMotion = Some \<lparr>library_type = EXTERNAL\<rparr>
   \<and> handleAssetDeletion (storeOf exampleRows) \<lparr>job_id = ''e2'', fromExternal = None\<rparr>
       = ([], False)
   \<and> getById (storeOf exampleRows) ''n1'' = Some noLibraryPhoto
   \<and> library noLibraryPhoto = None
   \<and> handleAssetDeletion (storeOf exampleRows) \<lparr>job_id = ''n1'', fromExternal = Some False\<rparr>
       = ([], False)
   \<and> snd (handleAssetDeletion (storeOf exampleRows) \<lparr>job_id = ''e2'', fromExternal = Some True\<rparr>)
   \<and> AssetRemove externalMotion
       \<in> set (fst (handleAssetDeletion (storeOf exampleRows)
                     \<lparr>job_id = ''e2'', fromExternal = Some True\<rparr>))"
proof -
  have g: "getById (storeOf exampleRows) ''zz'' = None"
    "getById (storeOf exampleRows) ''e2'' = Some externalMotion"
    "getById (storeOf exampleRows) ''n1'' = Some noLibraryPhoto"
    by (simp_all add: example_defs)
  have l: "library externalMotion = Some \<lparr>library_type = EXTERNAL\<rparr>" "library noLibraryPhoto = None"
    by (simp_all add: example_defs)
  have t: "snd (handleAssetDeletion (storeOf exampleRows) \<lparr>job_id = ''e2'', fromExternal = Some True\<rparr>)"
    "AssetRemove externalMotion
       \<in> set (fst (handleAssetDeletion (storeOf exampleRows)
                     \<lparr>job_id = ''e2'', fromExternal = Some True\<rparr>))"
    by (simp_all add: handleAssetDeletion_def g truthyFlag_def)
  show ?thesis
    using handleAssetDeletion_skip_or_purge
            [of "storeOf exampleRows" "\<lparr>job_id = ''zz'', fromExternal = None\<rparr>"]
          handleAssetDeletion_skip_or_purge
            [of "storeOf exampleRows" "\<lparr>job_id = ''e2'', fromExternal = None\<rparr>"]
          handleAssetDeletion_skip_or_purge
            [of "storeOf exampleRows" "\<lparr>job_id = ''n1'', fromExternal = Some False\<rparr>"]
          handleAssetDeletion_skip_or_purge
            [of "storeOf exampleRows" "\<lparr>job_id = ''e2'', fromExternal = Some True\<rparr>"]
          g l t
    by (simp add: truthyFlag_def)
qed

lemma find_first_other:
  "\<forall>b \<in> set before. b = i \<Longrightarrow> m \<noteq> i \<Longrightarrow> find (\<lambda>a. a \<noteq> i) (before @ m # after) = Some m"
  by (induction before) simp_all

text \<open>
  C1. For a deletion job whose asset exists, is deletion-eligible and is the primary of its
  stack: when the stack has more than two members, the only stack call is a save of the
  stack with \<open>primaryAssetId\<close> set to the first member id other than the deleted asset's
  (that is \<open>find\<close>: the member after a prefix of members equal to the deleted id), and
  the stack is not deleted; when it has two members or fewer, the
  stack is deleted and nothing is saved.
\<close>

theorem handleAssetDeletion_primary_of_stack:
  assumes "getById repos (job_id job) = Some asset"
      and "eligible asset job"
      and "stack asset = Some s"
      and "primaryAssetId s = job_id job"
  shows "(length (stack_assets s) > 2 \<longrightarrow>
            StackSave (stack_id s) (find (\<lambda>a. a \<noteq> job_id job) (stack_assets s)) None
              \<in> set (fst (handleAssetDeletion repos job))
            \<and> (\<forall>x. StackDelete x \<notin> set (fst (handleAssetDeletion repos job)))
            \<and> (\<forall>x p m. StackSave x p m \<in> set (fst (handleAssetDeletion repos job)) \<longrightarrow>
                  x = stack_id s \<and> p = find (\<lambda>a. a \<noteq> job_id job) (stack_assets s))
            \<and> (\<forall>before m after.
                  stack_assets s = before @ m # after \<and> m \<noteq> job_id job
                  \<and> (\<forall>b \<in> set before. b = job_id job) \<longrightarrow>
                  find (\<lambda>a. a \<noteq> job_id job) (stack_assets s) = Some m))
       \<and> (length (stack_assets s) \<le> 2 \<longrightarrow>
            StackDelete (stack_id s) \<in> set (fst (handleAssetDeletion repos job))
            \<and> (\<forall>x p m. StackSave x p m \<notin> set (fst (handleAssetDeletion repos job))))"
  using assms
  by (auto simp: handleAssetDeletion_def eligible_def replaceStackParent_def find_first_other
           split: option.splits)

theorem handleAssetDeletion_primary_of_stack_witness:
  "getById (storeOf exampleRows) ''a1'' = Some primaryOf3
   \<and> eligible primaryOf3 \<lparr>job_id = ''a1'', fromExternal = None\<rparr>
   \<and> stack primaryOf3 = Some stackOf3 \<and> primaryAssetId stackOf3 = ''a1''
   \<and> length (stack_assets stackOf3) = 3
   \<and> StackSave ''s1'' (Some ''a2'') None
       \<in> set (fst (handleAssetDeletion (storeOf exampleRows)
                     \<lparr>job_id = ''a1'', fromExternal = None\<rparr>))
   \<and> getById (storeOf exampleRows) ''b1'' = Some primaryOf2
   \<and> eligible primaryOf2 \<lparr>job_id = ''b1'', fromExternal = None\<rparr>
   \<and> stack primaryOf2 = Some stackOf2 \<and> primaryAssetId stackOf2 = ''b1''
   \<and> length (stack_assets stackOf2) = 2
   \<and> StackDelete ''s2''
       \<in> set (fst (handleAssetDeletion (storeOf exampleRows)
                     \<lparr>job_id = ''b1'', fromExternal = None\<rparr>))"
proof -
  have a: "getById (storeOf exampleRows) ''a1'' = Some primaryOf3"
    and b: "getById (storeOf exampleRows) ''b1'' = Some primaryOf2"
    by (simp_all add: example_defs)
  have ea: "eligible primaryOf3 \<lparr>job_id = ''a1'', fromExternal = None\<rparr>"
    and eb: "eligible primaryOf2 \<lparr>job_id = ''b1'', fromExternal = None\<rparr>"
    by (simp_all add: eligible_def example_defs)
  have sa: "stack primaryOf3 = Some stackOf3" and sb: "stack primaryOf2 = Some stackOf2"
    by (simp_all add: primaryOf3_def primaryOf2_def)
  have pa: "primaryAssetId stackOf3 = ''a1''" and pb: "primaryAssetId stackOf2 = ''b1''"
    by (simp_all add: stackOf3_def stackOf2_def)
  show ?thesis
    using handleAssetDeletion_primary_of_stack
            [of "storeOf exampleRows" "\<lparr>job_id = ''a1'', fromExternal = None\<rparr>"
                primaryOf3 stackOf3]
          handleAssetDeletion_primary_of_stack
            [of "storeOf exampleRows" "\<lparr>job_id = ''b1'', fromExternal = None\<rparr>"
                primaryOf2 stackOf2]
          a b ea eb sa sb pa pb
    by (simp add: stackOf3_def stackOf2_def)
qed

text \<open>
  C5 (as the code has it). A purged asset that is read-only gets no file-removal job.
\<close>

theorem readOnly_no_file_removal:
  "handleAssetDeletion (storeOf exampleRows) \<lparr>job_id = ''r1'', fromExternal = None\<rparr>
     = ([AssetRemove readOnlyPhoto, UserUpdateUsage ''user-1'' (- 100),
         Send ASSET_DELETE ''user-1'' (OneId ''r1'')], True)"
  by (simp add: handleAssetDeletion_def example_defs truthyFlag_def replaceStackParent_def
        fileSizeOrZero_def)

lemma replaceStackParent_no_file_removal:
  "filter isFileRemoval (replaceStackParent asset i) = []"
  by (simp add: replaceStackParent_def Let_def split: option.splits)

text \<open>
  C5, amended. For every purged asset that is not read-only, exactly one file-removal
  job is enqueued: the file-removal jobs among the effects are that one job and no other.
  Its path list is \<open>webpPath\<close>, \<open>resizePath\<close>, \<open>encodedVideoPath\<close>, \<open>sidecarPath\<close>,
  followed by \<open>originalPath\<close> when the job's \<open>fromExternal\<close> flag is not set and by
  nothing when it is set. For a purged read-only asset no file-removal job is enqueued.
\<close>

theorem handleAssetDeletion_file_removal:
  assumes "getById repos (job_id job) = Some asset"
      and "snd (handleAssetDeletion repos job)"
  shows "(\<not> isReadOnly asset \<longrightarrow>
            filter isFileRemoval (fst (handleAssetDeletion repos job))
              = [Queue (DELETE_FILES
                          ([webpPath asset, resizePath asset, encodedVideoPath asset,
                            sidecarPath asset]
                           @ (if truthyFlag (fromExternal job) then []
                              else [Some (originalPath asset)])))]
            \<and> Queue (DELETE_FILES
                     ([webpPath asset, resizePath asset, encodedVideoPath asset, sidecarPath asset]
                      @ (if truthyFlag (fromExternal job) then [] else [Some (originalPath asset)])))
              \<in> set (fst (handleAssetDeletion repos job))
            \<and> (\<forall>files. Queue (DELETE_FILES files) \<in> set (fst (handleAssetDeletion repos job)) \<longrightarrow>
                  files = [webpPath asset, resizePath asset, encodedVideoPath asset, sidecarPath asset]
                          @ (if truthyFlag (fromExternal job) then [] else [Some (originalPath asset)])))
       \<and> (isReadOnly asset \<longrightarrow>
            filter isFileRemoval (fst (handleAssetDeletion repos job)) = []
            \<and> (\<forall>files. Queue (DELETE_FILES files) \<notin> set (fst (handleAssetDeletion repos job))))"
proof -
  from assms
  have e: "fst (handleAssetDeletion repos job)
             = replaceStackParent asset (job_id job)
               @ [AssetRemove asset,
                  UserUpdateUsage (ownerId asset) (- fileSizeOrZero asset),
                  Send ASSET_DELETE (ownerId asset) (OneId (job_id job))]
               @ (case truthyValue (livePhotoVideoId asset) of
                    None \<Rightarrow> []
                  | Some v \<Rightarrow> [Queue (ASSET_DELETION \<lparr>job_id = v, fromExternal = None\<rparr>)])
               @ (if \<not> isReadOnly asset
                  then [Queue (DELETE_FILES (deletionFiles asset (fromExternal job)))]
                  else [])"
    by (auto simp: handleAssetDeletion_def split: if_splits)
  have f: "filter isFileRemoval (fst (handleAssetDeletion repos job))
             = (if \<not> isReadOnly asset
                then [Queue (DELETE_FILES (deletionFiles asset (fromExternal job)))]
                else [])"
    by (simp add: e replaceStackParent_no_file_removal split: option.splits)
  have m: "Queue (DELETE_FILES files) \<in> set (fst (handleAssetDeletion repos job))
             \<longleftrightarrow> Queue (DELETE_FILES files)
                   \<in> set (filter isFileRemoval (fst (handleAssetDeletion repos job)))"
    for files
    by simp
  show ?thesis
    unfolding m f by (simp add: deletionFiles_def)
qed

theorem handleAssetDeletion_file_removal_witness:
  "getById (storeOf exampleRows) ''e1'' = Some externalPhoto
   \<and> snd (handleAssetDeletion (storeOf exampleRows) \<lparr>job_id = ''e1'', fromExternal = Some True\<rparr>)
   \<and> \<not> isReadOnly externalPhoto
   \<and> filter isFileRemoval
         (fst (handleAssetDeletion (storeOf exampleRows)
                 \<lparr>job_id = ''e1'', fromExternal = Some True\<rparr>))
       = [Queue (DELETE_FILES [Some ''/thumbs/e1.webp'', Some ''/thumbs/e1.jpeg'', None, None])]
   \<and> Queue (DELETE_FILES [Some ''/thumbs/e1.webp'', Some ''/thumbs/e1.jpeg'', None, None])
       \<in> set (fst (handleAssetDeletion (storeOf exampleRows)
                     \<lparr>job_id = ''e1'', fromExternal = Some True\<rparr>))
   \<and> getById (storeOf exampleRows) ''a1'' = Some primaryOf3
   \<and> snd (handleAssetDeletion (storeOf exampleRows) \<lparr>job_id = ''a1'', fromExternal = None\<rparr>)
   \<and> \<not> isReadOnly primaryOf3
   \<and> Queue (DELETE_FILES [Some ''/thumbs/a1.webp'', Some ''/thumbs/a1.jpeg'', None, None,
                           Some ''/upload/a1.jpg''])
       \<in> set (fst (handleAssetDeletion (storeOf exampleRows)
                     \<lparr>job_id = ''a1'', fromExternal = None\<rparr>))
   \<and> getById (storeOf exampleRows) ''r1'' = Some readOnlyPhoto
   \<and> snd (handleAssetDeletion (storeOf exampleRows) \<lparr>job_id = ''r1'', fromExternal = None\<rparr>)
   \<and> isReadOnly readOnlyPhoto
   \<and> Queue (DELETE_FILES [Some ''/thumbs/r1.webp'', Some ''/thumbs/r1.jpeg'', None, None,
                           Some ''/upload/r1.jpg''])
       \<notin> set (fst (handleAssetDeletion (storeOf exampleRows)
                     \<lparr>job_id = ''r1'', fromExternal = None\<rparr>))"
proof -
  have g: "getById (storeOf exampleRows) ''e1'' = Some externalPhoto"
    "getById (storeOf exampleRows) ''a1'' = Some primaryOf3"
    "getById (storeOf exampleRows) ''r1'' = Some readOnlyPhoto"
    by (simp_all add: example_defs)
  have p: "snd (handleAssetDeletion (storeOf exampleRows) \<lparr>job_id = ''e1'', fromExternal = Some True\<rparr>)"
    "snd (handleAssetDeletion (storeOf exampleRows) \<lparr>job_id = ''a1'', fromExternal = None\<rparr>)"
    "snd (handleAssetDeletion (storeOf exampleRows) \<lparr>job_id = ''r1'', fromExternal = None\<rparr>)"
    by (simp_all add: handleAssetDeletion_def g truthyFlag_def)
       (simp_all add: example_defs)
  have r: "\<not> isReadOnly externalPhoto" "\<not> isReadOnly primaryOf3" "isReadOnly readOnlyPhoto"
    by (simp_all add: example_defs)
  have f: "webpPath externalPhoto = Some ''/thumbs/e1.webp''"
    "resizePath externalPhoto = Some ''/thumbs/e1.jpeg''"
    "encodedVideoPath externalPhoto = None" "sidecarPath externalPhoto = None"
    "webpPath primaryOf3 = Some ''/thumbs/a1.webp''"
    "resizePath primaryOf3 = Some ''/thumbs/a1.jpeg''"
    "encodedVideoPath primaryOf3 = None" "sidecarPath primaryOf3 = None"
    "originalPath primaryOf3 = ''/upload/a1.jpg''"
    by (simp_all add: example_defs)
  show ?thesis
    using handleAssetDeletion_file_removal
            [of "storeOf exampleRows" "\<lparr>job_id = ''e1'', fromExternal = Some True\<rparr>"
                externalPhoto, OF _ p(1)]
          handleAssetDeletion_file_removal
            [of "storeOf exampleRows" "\<lparr>job_id = ''a1'', fromExternal = None\<rparr>"
                primaryOf3, OF _ p(2)]
          handleAssetDeletion_file_removal
            [of "storeOf exampleRows" "\<lparr>job_id = ''r1'', fromExternal = None\<rparr>"
                readOnlyPhoto, OF _ p(3)]
          g p r
    by (simp add: truthyFlag_def f)
qed

text \<open>
  C10. The deletion job queued for the live-photo companion of a purged asset carries the
  companion's id and no \<open>fromExternal\<close> flag, whatever the flag of the purging job; it is
  the only deletion job queued. So when that job runs against a store in which the
  companion has no library or an externally managed one, it returns false and has no
  effect: the companion is not purged.
\<close>

theorem companion_job_drops_fromExternal:
  assumes "getById repos (job_id job) = Some asset"
      and "snd (handleAssetDeletion repos job)"
      and "truthyValue (livePhotoVideoId asset) = Some companionId"
  shows "Queue (ASSET_DELETION \<lparr>job_id = companionId, fromExternal = None\<rparr>)
           \<in> set (fst (handleAssetDeletion repos job))
       \<and> (\<forall>j. Queue (ASSET_DELETION j) \<in> set (fst (handleAssetDeletion repos job)) \<longrightarrow>
             j = \<lparr>job_id = companionId, fromExternal = None\<rparr>
             \<and> (\<forall>later companion.
                   getById later companionId = Some companion
                   \<and> (library companion = None
                       \<or> (\<exists>l. library companion = Some l \<and> library_type l = EXTERNAL)) \<longrightarrow>
                   handleAssetDeletion later j = ([], False)))"
  using assms
  by (auto simp: handleAssetDeletion_def truthyValue_def truthyFlag_def replaceStackParent_def
                 Let_def
           split: option.splits if_splits)

theorem companion_job_drops_fromExternal_witness:
  "getById (storeOf exampleRows) ''e1'' = Some externalPhoto
   \<and> snd (handleAssetDeletion (storeOf exampleRows) \<lparr>job_id = ''e1'', fromExternal = Some True\<rparr>)
   \<and> truthyValue (livePhotoVideoId externalPhoto) = Some ''e2''
   \<and> Queue (ASSET_DELETION \<lparr>job_id = ''e2'', fromExternal = None\<rparr>)
       \<in> set (fst (handleAssetDeletion (storeOf exampleRows)
                     \<lparr>job_id = ''e1'', fromExternal = Some True\<rparr>))
   \<and> getById (storeOf exampleRows) ''e2'' = Some externalMotion
   \<and> library externalMotion = Some \<lparr>library_type = EXTERNAL\<rparr>
   \<and> handleAssetDeletion (storeOf exampleRows) \<lparr>job_id = ''e2'', fromExternal = None\<rparr>
       = ([], False)"
proof -
  have g: "getById (storeOf exampleRows) ''e1'' = Some externalPhoto"
    "getById (storeOf exampleRows) ''e2'' = Some externalMotion"
    by (simp_all add: example_defs)
  have p: "snd (handleAssetDeletion (storeOf exampleRows) \<lparr>job_id = ''e1'', fromExternal = Some True\<rparr>)"
    by (simp add: handleAssetDeletion_def g truthyFlag_def)
  have c: "truthyValue (livePhotoVideoId externalPhoto) = Some ''e2''"
    by (simp add: truthyValue_def example_defs)
  have l: "library externalMotion = Some \<lparr>library_type = EXTERNAL\<rparr>"
    by (simp add: example_defs)
  from companion_job_drops_fromExternal
         [of "storeOf exampleRows" "\<lparr>job_id = ''e1'', fromExternal = Some True\<rparr>"
             externalPhoto "''e2''"] g(1) p c
  have q: "Queue (ASSET_DELETION \<lparr>job_id = ''e2'', fromExternal = None\<rparr>)
             \<in> set (fst (handleAssetDeletion (storeOf exampleRows)
                           \<lparr>job_id = ''e1'', fromExternal = Some True\<rparr>))"
    and a: "\<forall>j. Queue (ASSET_DELETION j)
                   \<in> set (fst (handleAssetDeletion (storeOf exampleRows)
                                 \<lparr>job_id = ''e1'', fromExternal = Some True\<rparr>)) \<longrightarrow>
             j = \<lparr>job_id = ''e2'', fromExternal = None\<rparr>
             \<and> (\<forall>later companion.
                   getById later ''e2'' = Some companion
                   \<and> (library companion = None
                       \<or> (\<exists>l. library companion = Some l \<and> library_type l = EXTERNAL)) \<longrightarrow>
                   handleAssetDeletion later j = ([], False))"
    by simp_all
  have "handleAssetDeletion (storeOf exampleRows) \<lparr>job_id = ''e2'', fromExternal = None\<rparr>
          = ([], False)"
    using a[rule_format, OF q, THEN conjunct2, rule_format, of "storeOf exampleRows" externalMotion]
          g(2) l
    by simp
  with g p c q l show ?thesis by simp
qed

section \<open>Download archives: theorems\<close>

lemma closed_refs_unchanged:
  assumes "list_all (\<lambda>r. r < k) refs" and "k < length objs"
  shows "map (\<lambda>r. f ((objs[k := c] @ e) ! r)) refs = map (\<lambda>r. f (objs ! r)) refs"
    and "map (\<lambda>r. f ((objs[k := c]) ! r)) refs = map (\<lambda>r. f (objs ! r)) refs"
proof -
  have "\<And>r. r \<in> set refs \<Longrightarrow> (objs[k := c] @ e) ! r = objs ! r"
    using assms by (auto simp: nth_append list_all_iff)
  then show "map (\<lambda>r. f ((objs[k := c] @ e) ! r)) refs = map (\<lambda>r. f (objs ! r)) refs"
    by simp
  have "\<And>r. r \<in> set refs \<Longrightarrow> (objs[k := c]) ! r = objs ! r"
    using assms by (auto simp: list_all_iff)
  then show "map (\<lambda>r. f ((objs[k := c]) ! r)) refs = map (\<lambda>r. f (objs ! r)) refs"
    by simp
qed

lemma addAsset_fresh: "runningIsFresh st \<Longrightarrow> runningIsFresh (addAsset t st a)"
  by (auto simp: runningIsFresh_def addAsset_def Let_def list_all_iff)

lemma addAsset_pushedIds:
  assumes "runningIsFresh st"
  shows "pushedIds (addAsset t st a) = pushedIds st @ [asset_id a]"
proof -
  have k: "archive st < length (objects st)"
    and r: "list_all (\<lambda>r. r < archive st) (archive_refs st)"
    using assms by (simp_all add: runningIsFresh_def)
  show ?thesis
    unfolding pushedIds_def addAsset_def Let_def
    using k by (simp add: closed_refs_unchanged[OF r k]) (simp add: nth_append)
qed

lemma foldl_addAsset_pushedIds:
  "runningIsFresh st \<Longrightarrow>
   runningIsFresh (foldl (addAsset t) st assets)
   \<and> pushedIds (foldl (addAsset t) st assets) = pushedIds st @ map asset_id assets"
  by (induction assets arbitrary: st) (simp_all add: addAsset_fresh addAsset_pushedIds)

lemma one_page_order:
  "concat (map assetIds (archives (downloadInfoOfPages repos t [page])))
     = map asset_id (withMotionParts repos page)"
proof -
  let ?st = "foldl (addAsset t) initialStore (withMotionParts repos page)"
  have i0: "runningIsFresh initialStore" by (simp add: runningIsFresh_def initialStore_def)
  have o0: "pushedIds initialStore = []" by (simp add: pushedIds_def initialStore_def)
  from foldl_addAsset_pushedIds[OF i0, of t "withMotionParts repos page"]
  have o: "pushedIds ?st = map asset_id (withMotionParts repos page)" by (simp add: o0)
  have "concat (map assetIds (archives (downloadInfoOfPages repos t [page]))) = pushedIds ?st"
    by (simp add: downloadInfoOfPages_def addPage_def response_def Let_def pushedIds_def o_def)
  then show ?thesis using o by simp
qed

lemma addAsset_last: "runningIsLast st \<Longrightarrow> runningIsLast (addAsset t st a)"
  by (auto simp: runningIsLast_def addAsset_def Let_def)

lemma addAsset_allocatedIds:
  assumes "runningIsLast st"
  shows "allocatedIds (addAsset t st a) = allocatedIds st @ [asset_id a]"
proof -
  from assms obtain ys y where o: "objects st = ys @ [y]"
    by (cases "objects st" rule: rev_cases) (auto simp: runningIsLast_def)
  with assms have k: "archive st = length ys" by (simp add: runningIsLast_def)
  show ?thesis
    by (simp add: allocatedIds_def addAsset_def Let_def o k)
qed

lemma foldl_addAsset_allocatedIds:
  "runningIsLast st \<Longrightarrow>
   runningIsLast (foldl (addAsset t) st assets)
   \<and> allocatedIds (foldl (addAsset t) st assets) = allocatedIds st @ map asset_id assets"
  by (induction assets arbitrary: st) (simp_all add: addAsset_last addAsset_allocatedIds)

lemma addPage_allocatedIds:
  assumes "runningIsLast st"
  shows "runningIsLast (addPage repos t st page)
         \<and> allocatedIds (addPage repos t st page)
             = allocatedIds st @ map asset_id (withMotionParts repos page)"
  using foldl_addAsset_allocatedIds[OF assms, of t "withMotionParts repos page"]
  by (simp add: addPage_def Let_def runningIsLast_def allocatedIds_def)

lemma foldl_addPage_allocatedIds:
  "runningIsLast st \<Longrightarrow>
   runningIsLast (foldl (addPage repos t) st pages)
   \<and> allocatedIds (foldl (addPage repos t) st pages)
       = allocatedIds st @ concat (map (\<lambda>page. map asset_id (withMotionParts repos page)) pages)"
  by (induction pages arbitrary: st) (simp_all add: addPage_allocatedIds)

text \<open>
  C6 (as the code has it). A live photo \<open>p\<close> with companion \<open>m\<close>, followed in its page
  by \<open>q\<close>: the companion comes after \<open>q\<close>, not right after \<open>p\<close>.
\<close>

theorem companion_not_adjacent:
  "getDownloadInfo (storeOf (livePage @ [sized ''m'' 5])) user1 (byIds [''p'', ''q''])
     = Inr \<lparr>totalSize = 7,
            archives = [\<lparr>size_bytes = 7, assetIds = [''p'', ''q'', ''m'']\<rparr>]\<rparr>"
  by (simp add: getDownloadInfo_def getDownloadAssets_def requirePermission_def byIds_def
        storeOf_def livePage_def sized_def plainAsset_def targetSizeOf_def GiB_def
        downloadInfoOfPages_def addPage_def withMotionParts_def motionIds_def addAsset_def
        initialStore_def response_def fileSizeOrZero_def Let_def)

text \<open>
  C6, amended. The companions that the store returns for the \<open>livePhotoVideoId\<close>s of a
  page are processed after all the assets of that page, in the order the store returns
  them. For a stream of one page, the asset ids of the output archives, read in order, are
  the ids of the page's assets in arrival order followed by the ids of the returned
  companions (nothing is fetched when no asset of the page has a companion). For a stream
  of any number of pages, the ids held by the archive objects, in the order of allocation,
  are the pages in order, each followed by its returned companions.
\<close>

theorem companions_follow_their_page:
  "concat (map assetIds (archives (downloadInfoOfPages repos t [page])))
     = map asset_id page
       @ (if motionIds page = [] then [] else map asset_id (getByIds repos (motionIds page)))
   \<and> allocatedIds (foldl (addPage repos t) initialStore pages)
     = concat (map (\<lambda>p. map asset_id p
                     @ (if motionIds p = [] then []
                        else map asset_id (getByIds repos (motionIds p)))) pages)"
proof -
  have w: "map asset_id (withMotionParts repos p)
             = map asset_id p
               @ (if motionIds p = [] then [] else map asset_id (getByIds repos (motionIds p)))"
    for p
    by (simp add: withMotionParts_def)
  have l: "runningIsLast initialStore" by (simp add: runningIsLast_def initialStore_def)
  have a: "allocatedIds initialStore = []" by (simp add: allocatedIds_def initialStore_def)
  show ?thesis
    using one_page_order[of repos t page] foldl_addPage_allocatedIds[OF l, of repos t pages]
    by (simp add: w a)
qed





















lemma archive_eta:
  "\<lparr>size_bytes = size_bytes (x :: DownloadArchiveInfo), assetIds = assetIds x\<rparr> = x"
  by (cases x) simp

lemma sizes_nonneg:
  "\<forall>a \<in> set assets. 0 \<le> fileSizeOrZero a \<Longrightarrow> 0 \<le> sum_list (map fileSizeOrZero assets)"
  by (induction assets) simp_all

lemma foldl_addAsset_below:
  assumes "archive st < length (objects st)"
      and "\<forall>a \<in> set assets. 0 \<le> fileSizeOrZero a"
      and "size_bytes (objects st ! archive st) + sum_list (map fileSizeOrZero assets) \<le> t"
  shows "foldl (addAsset t) st assets =
           st\<lparr>objects := (objects st)
                 [archive st :=
                    \<lparr>size_bytes = size_bytes (objects st ! archive st)
                                   + sum_list (map fileSizeOrZero assets),
                     assetIds = assetIds (objects st ! archive st) @ map asset_id assets\<rparr>]\<rparr>"
  using assms
proof (induction assets arbitrary: st)
  case Nil
  then show ?case by (simp add: archive_eta)
next
  case (Cons a assets)
  let ?cur = "objects st ! archive st"
  let ?cur' = "\<lparr>size_bytes = size_bytes ?cur + fileSizeOrZero a,
                 assetIds = assetIds ?cur @ [asset_id a]\<rparr>"
  let ?st' = "st\<lparr>objects := (objects st)[archive st := ?cur']\<rparr>"
  have nn: "0 \<le> sum_list (map fileSizeOrZero assets)"
    using Cons.prems(2) by (simp add: sizes_nonneg)
  with Cons.prems(3) have le: "size_bytes ?cur + fileSizeOrZero a \<le> t" by simp
  then have step: "addAsset t st a = ?st'" by (simp add: addAsset_def Let_def)
  have k: "archive ?st' < length (objects ?st')" using Cons.prems(1) by simp
  have c: "objects ?st' ! archive ?st' = ?cur'" using Cons.prems(1) by simp
  have s: "size_bytes (objects ?st' ! archive ?st') + sum_list (map fileSizeOrZero assets) \<le> t"
    using Cons.prems(3) c by (simp add: add.assoc)
  have r: "\<forall>a \<in> set assets. 0 \<le> fileSizeOrZero a" using Cons.prems(2) by simp
  show ?case
    using Cons.IH[OF k r s] Cons.prems(1) by (simp add: step add.assoc)
qed

text \<open>
  C2 (as the code has it). The running archive is pushed at the end of every page and is
  not replaced there, so a stream of two non-empty pages that stay within the target puts
  the same archive object on the output list twice: both entries hold all the assets of
  both pages, and \<open>totalSize\<close> counts them twice.
\<close>

theorem two_pages_listed_twice:
  assumes "p1 \<noteq> []" and "p2 \<noteq> []"
      and "motionIds p1 = []" and "motionIds p2 = []"
      and "\<forall>a \<in> set (p1 @ p2). 0 \<le> fileSizeOrZero a"
      and "sum_list (map fileSizeOrZero (p1 @ p2)) \<le> t"
  shows "downloadInfoOfPages repos t [p1, p2] =
           \<lparr>totalSize = 2 * sum_list (map fileSizeOrZero (p1 @ p2)),
            archives =
              [\<lparr>size_bytes = sum_list (map fileSizeOrZero (p1 @ p2)),
                assetIds = map asset_id (p1 @ p2)\<rparr>,
               \<lparr>size_bytes = sum_list (map fileSizeOrZero (p1 @ p2)),
                assetIds = map asset_id (p1 @ p2)\<rparr>]\<rparr>"
proof -
  have w: "withMotionParts repos p1 = p1" "withMotionParts repos p2 = p2"
    using assms(3,4) by (simp_all add: withMotionParts_def)
  have n1: "\<forall>a \<in> set p1. 0 \<le> fileSizeOrZero a" and n2: "\<forall>a \<in> set p2. 0 \<le> fileSizeOrZero a"
    using assms(5) by simp_all
  have s2: "0 \<le> sum_list (map fileSizeOrZero p2)" using n2 by (simp add: sizes_nonneg)
  have b1: "size_bytes (objects initialStore ! archive initialStore)
              + sum_list (map fileSizeOrZero p1) \<le> t"
    using assms(6) s2 by (simp add: initialStore_def)
  have k0: "archive initialStore < length (objects initialStore)"
    by (simp add: initialStore_def)
  let ?A1 = "\<lparr>size_bytes = sum_list (map fileSizeOrZero p1), assetIds = map asset_id p1\<rparr>"
  have f1: "foldl (addAsset t) initialStore p1
              = \<lparr>objects = [?A1], archive_refs = [], archive = 0\<rparr>"
    using foldl_addAsset_below[OF k0 n1 b1] by (simp add: initialStore_def)
  let ?st1 = "\<lparr>objects = [?A1], archive_refs = [0], archive = 0\<rparr>"
  have a1: "addPage repos t initialStore p1 = ?st1"
    using assms(1) by (simp add: addPage_def w f1)
  have k1: "archive ?st1 < length (objects ?st1)" by simp
  have b2: "size_bytes (objects ?st1 ! archive ?st1) + sum_list (map fileSizeOrZero p2) \<le> t"
    using assms(6) by simp
  let ?A = "\<lparr>size_bytes = sum_list (map fileSizeOrZero (p1 @ p2)),
             assetIds = map asset_id (p1 @ p2)\<rparr>"
  have f2: "foldl (addAsset t) ?st1 p2 = \<lparr>objects = [?A], archive_refs = [0], archive = 0\<rparr>"
    using foldl_addAsset_below[OF k1 n2 b2] by simp
  have a2: "addPage repos t ?st1 p2 = \<lparr>objects = [?A], archive_refs = [0, 0], archive = 0\<rparr>"
    using assms(1) by (simp add: addPage_def w f2)
  show ?thesis
    by (simp add: downloadInfoOfPages_def a1 a2 response_def)
qed

theorem two_pages_listed_twice_witness:
  "[sized ''1'' 1] \<noteq> [] \<and> [sized ''2'' 1] \<noteq> []
   \<and> motionIds [sized ''1'' 1] = [] \<and> motionIds [sized ''2'' 1] = []
   \<and> sum_list (map fileSizeOrZero ([sized ''1'' 1] @ [sized ''2'' 1])) \<le> GiB * 4
   \<and> getDownloadInfo twoPages user1 (byAlbum ''album-1'')
       = Inr \<lparr>totalSize = 4,
              archives = [\<lparr>size_bytes = 2, assetIds = [''1'', ''2'']\<rparr>,
                          \<lparr>size_bytes = 2, assetIds = [''1'', ''2'']\<rparr>]\<rparr>"
proof -
  have m: "motionIds [sized ''1'' 1] = []" "motionIds [sized ''2'' 1] = []"
    by (simp_all add: motionIds_def sized_def plainAsset_def)
  have f: "fileSizeOrZero (sized i n) = n" "asset_id (sized i n) = i" for i n
    by (simp_all add: sized_def plainAsset_def fileSizeOrZero_def)
  have g: "getDownloadInfo twoPages user1 (byAlbum ''album-1'')
             = Inr (downloadInfoOfPages twoPages (GiB * 4) [[sized ''1'' 1], [sized ''2'' 1]])"
    by (simp add: getDownloadInfo_def getDownloadAssets_def requirePermission_def byAlbum_def
          twoPages_def storeOf_def truthyValue_def targetSizeOf_def)
  have le: "sum_list (map fileSizeOrZero ([sized ''1'' 1] @ [sized ''2'' 1])) \<le> GiB * 4"
    by (simp add: f GiB_def)
  show ?thesis
    using two_pages_listed_twice
            [of "[sized ''1'' 1]" "[sized ''2'' 1]" "GiB * 4" twoPages, OF _ _ m _ le]
          m le
    by (simp add: g f)
qed

section \<open>The zip of a list of assets: theorems\<close>

lemma addFiles_length: "length (addFiles ext proto paths assets) = length assets"
  by (induction assets arbitrary: paths) (simp_all add: Let_def)

lemma readCount_held:
  "proto name = None \<Longrightarrow> held paths name = Some c \<Longrightarrow> readCount proto paths name = Count c"
  by (cases "paths name")
     (auto simp: held_def readCount_def split: PathValue.splits)

lemma writeCount_other:
  "f \<noteq> name \<Longrightarrow> writeCount proto paths f v name = paths name"
  by (simp add: writeCount_def split: option.splits Inherited.splits)

lemma writeCount_same:
  "proto name = None \<Longrightarrow> writeCount proto paths name v name = Some v"
  by (simp add: writeCount_def split: option.splits)

lemma held_write:
  assumes "proto name = None" and "held paths name = Some c"
  shows "held (writeCount proto paths f (plusOne (readCount proto paths f))) name
           = Some (c + (if f = name then 1 else 0))"
proof (cases "f = name")
  case True
  then show ?thesis
    using assms by (simp add: held_def writeCount_same readCount_held plusOne_def)
next
  case False
  then show ?thesis
    using assms by (simp add: held_def writeCount_other)
qed

lemma addFiles_nth:
  "i < length assets \<Longrightarrow> proto (combinedName ext (assets ! i)) = None \<Longrightarrow>
   held paths (combinedName ext (assets ! i)) = Some c \<Longrightarrow>
   addFiles ext proto paths assets ! i =
     (let a = assets ! i; k = c + earlier ext assets i
      in AddFile (originalPath a)
           (if k = 0 then combinedName ext a
            else originalFileName a @ ''+'' @ showNat k @ ext (originalPath a)))"
proof (induction assets arbitrary: paths i c)
  case Nil
  then show ?case by simp
next
  case (Cons a assets)
  show ?case
  proof (cases i)
    case 0
    with Cons.prems have "readCount proto paths (originalFileName a @ ext (originalPath a)) = Count c"
      by (simp add: readCount_held combinedName_def)
    with 0 show ?thesis
      by (simp add: Let_def earlier_def combinedName_def shown_def)
  next
    case (Suc j)
    with Cons.prems have j: "j < length assets"
      and p: "proto (combinedName ext (assets ! j)) = None"
      and h: "held paths (combinedName ext (assets ! j)) = Some c"
      by simp_all
    let ?f = "originalFileName a @ ext (originalPath a)"
    have h': "held (writeCount proto paths ?f (plusOne (readCount proto paths ?f)))
                (combinedName ext (assets ! j))
              = Some (c + (if ?f = combinedName ext (assets ! j) then 1 else 0))"
      using p h by (rule held_write)
    show ?thesis
      using Cons.IH[OF j p h'] Suc
      by (simp add: Let_def earlier_def combinedName_def)
  qed
qed


text \<open>
  With download permission on the ids, \<open>downloadArchive\<close> adds one file per asset, in
  the order of the assets, and then finalizes the zip. An asset whose combined name
  (\<open>originalFileName\<close> followed by the extension of \<open>originalPath\<close>) is not the name of
  an inherited property is added under that name unchanged when no earlier asset has it;
  when \<open>k \<ge> 1\<close> earlier assets have it, it is added under \<open>originalFileName\<close>, \<open>+\<close>,
  the decimal digits of \<open>k\<close>, and the extension.
\<close>

theorem downloadArchive_names:
  assumes "access repos auth Permission_ASSET_DOWNLOAD wanted"
  shows "\<exists>calls. downloadArchive repos auth wanted = Inr (calls @ [Finalize])
           \<and> length calls = length (getByIds repos wanted)
           \<and> (\<forall>i < length (getByIds repos wanted).
                 objectPrototype repos (combinedName (extname repos) (getByIds repos wanted ! i))
                   = None \<longrightarrow>
                 calls ! i =
                   (let a = getByIds repos wanted ! i;
                        k = earlier (extname repos) (getByIds repos wanted) i
                    in AddFile (originalPath a)
                         (if k = 0 then combinedName (extname repos) a
                          else originalFileName a @ ''+'' @ showNat k
                               @ extname repos (originalPath a))))"
proof -
  have h: "held Map.empty name = Some 0" for name by (simp add: held_def)
  show ?thesis
    using assms addFiles_nth[OF _ _ h, of _ "getByIds repos wanted" "objectPrototype repos" "extname repos"]
    by (simp add: downloadArchive_def requirePermission_def addFiles_length Let_def)
qed

theorem downloadArchive_names_witness:
  "access (storeOf sameNameRows) user1 Permission_ASSET_DOWNLOAD [''x1'', ''x2'', ''x3'', ''x4'']
   \<and> objectPrototype (storeOf sameNameRows) ''IMG.jpg'' = None
   \<and> objectPrototype (storeOf sameNameRows) ''DSC.jpg'' = None
   \<and> downloadArchive (storeOf sameNameRows) user1 [''x1'', ''x2'', ''x3'', ''x4'']
       = Inr [AddFile ''/upload/1/IMG.jpg'' ''IMG.jpg'',
              AddFile ''/upload/2/IMG.jpg'' ''IMG+1.jpg'',
              AddFile ''/upload/3/DSC.jpg'' ''DSC.jpg'',
              AddFile ''/upload/4/IMG.jpg'' ''IMG+2.jpg'', Finalize]"
proof -
  have a: "access (storeOf sameNameRows) user1 Permission_ASSET_DOWNLOAD
             [''x1'', ''x2'', ''x3'', ''x4'']"
    by (simp add: storeOf_def)
  have g: "getByIds (storeOf sameNameRows) [''x1'', ''x2'', ''x3'', ''x4''] = sameNameRows"
    by (simp add: storeOf_def sameNameRows_def plainAsset_def)
  have e: "extname (storeOf sameNameRows) = posixExtname"
    and o: "objectPrototype (storeOf sameNameRows) = nodePrototype"
    by (simp_all add: storeOf_def)
  have x: "posixExtname ''/upload/1/IMG.jpg'' = ''.jpg''" "posixExtname ''/upload/2/IMG.jpg'' = ''.jpg''"
    "posixExtname ''/upload/3/DSC.jpg'' = ''.jpg''" "posixExtname ''/upload/4/IMG.jpg'' = ''.jpg''"
    by (simp_all add: posixExtname_def)
  have q: "nodePrototype ''IMG.jpg'' = None" "nodePrototype ''DSC.jpg'' = None"
    by (simp_all add: nodePrototype_def)
  from downloadArchive_names[OF a] obtain calls where
    c: "downloadArchive (storeOf sameNameRows) user1 [''x1'', ''x2'', ''x3'', ''x4'']
          = Inr (calls @ [Finalize])"
    and l: "length calls = length sameNameRows"
    and n: "\<forall>i < length sameNameRows.
              nodePrototype (combinedName posixExtname (sameNameRows ! i)) = None \<longrightarrow>
              calls ! i =
                (let a = sameNameRows ! i;
                     k = earlier posixExtname sameNameRows i
                 in AddFile (originalPath a)
                      (if k = 0 then combinedName posixExtname a
                       else originalFileName a @ ''+'' @ showNat k
                            @ posixExtname (originalPath a)))"
    unfolding g e o by blast
  have len: "length sameNameRows = 4" by (simp add: sameNameRows_def)
  have n0: "calls ! 0 = AddFile ''/upload/1/IMG.jpg'' ''IMG.jpg''"
    using n[rule_format, of 0] len
    by (simp add: sameNameRows_def plainAsset_def earlier_def combinedName_def Let_def x q)
  have n1: "calls ! 1 = AddFile ''/upload/2/IMG.jpg'' ''IMG+1.jpg''"
    using n[rule_format, of 1] len
    by (simp add: sameNameRows_def plainAsset_def earlier_def combinedName_def Let_def
          digitChar_def x q)
  have n2: "calls ! 2 = AddFile ''/upload/3/DSC.jpg'' ''DSC.jpg''"
    using n[rule_format, of 2] len
    by (simp add: sameNameRows_def plainAsset_def earlier_def combinedName_def Let_def
          numeral_2_eq_2 x q)
  have n3: "calls ! 3 = AddFile ''/upload/4/IMG.jpg'' ''IMG+2.jpg''"
    using n[rule_format, of 3] len
    by (simp add: sameNameRows_def plainAsset_def earlier_def combinedName_def Let_def
          numeral_3_eq_3 digitChar_def x q)
  have "calls = [calls ! 0, calls ! 1, calls ! 2, calls ! 3]"
    using l len by (intro nth_equalityI) (auto simp: nth_Cons' less_Suc_eq numeral_eq_Suc)
  then have "calls = [AddFile ''/upload/1/IMG.jpg'' ''IMG.jpg'',
              AddFile ''/upload/2/IMG.jpg'' ''IMG+1.jpg'',
              AddFile ''/upload/3/DSC.jpg'' ''DSC.jpg'',
              AddFile ''/upload/4/IMG.jpg'' ''IMG+2.jpg'']"
    using n0 n1 n2 n3 by simp
  with c a q o show ?thesis by simp
qed

section \<open>Bulk update and the stack mutations: theorems\<close>

lemma split_deletes0:
  "map StackDelete dels @ [fin] = ys @ StackDelete s # zs \<Longrightarrow> (\<forall>x. fin \<noteq> StackDelete x) \<Longrightarrow>
   \<exists>d1 d2. dels = d1 @ s # d2 \<and> ys = map StackDelete d1 \<and> zs = map StackDelete d2 @ [fin]"
proof (induction dels arbitrary: ys)
  case Nil
  then show ?case by (auto simp: Cons_eq_append_conv)
next
  case (Cons d dels)
  show ?case
  proof (cases ys)
    case Nil
    with Cons.prems show ?thesis by auto
  next
    case (Cons y ys')
    with Cons.prems have "map StackDelete dels @ [fin] = ys' @ StackDelete s # zs"
      and y: "y = StackDelete d" by auto
    from Cons.IH[OF this(1) Cons.prems(2)] obtain d1 d2 where
      "dels = d1 @ s # d2" "ys' = map StackDelete d1" "zs = map StackDelete d2 @ [fin]"
      by blast
    then have "d # dels = (d # d1) @ s # d2 \<and> ys = map StackDelete (d # d1)
               \<and> zs = map StackDelete d2 @ [fin]"
      using Cons y by simp
    then show ?thesis by blast
  qed
qed

lemma split_deletes:
  "pre @ map StackDelete dels @ [fin] = ys @ StackDelete s # zs \<Longrightarrow>
   (\<forall>e \<in> set pre. \<forall>x. e \<noteq> StackDelete x) \<Longrightarrow> (\<forall>x. fin \<noteq> StackDelete x) \<Longrightarrow>
   \<exists>d1 d2. dels = d1 @ s # d2 \<and> ys = pre @ map StackDelete d1
            \<and> zs = map StackDelete d2 @ [fin]"
proof (induction pre arbitrary: ys)
  case Nil
  then show ?case using split_deletes0 by simp
next
  case (Cons p pre)
  show ?case
  proof (cases ys)
    case Nil
    with Cons.prems show ?thesis by auto
  next
    case (Cons y ys')
    with Cons.prems have e: "pre @ map StackDelete dels @ [fin] = ys' @ StackDelete s # zs"
      and y: "y = p" by auto
    from Cons.prems have "\<forall>e \<in> set pre. \<forall>x. e \<noteq> StackDelete x" by simp
    from Cons.IH[OF e this Cons.prems(3)] obtain d1 d2 where
      "dels = d1 @ s # d2" "ys' = pre @ map StackDelete d1" "zs = map StackDelete d2 @ [fin]"
      by blast
    then have "dels = d1 @ s # d2 \<and> ys = (p # pre) @ map StackDelete d1
               \<and> zs = map StackDelete d2 @ [fin]"
      using Cons y by simp
    then show ?thesis by blast
  qed
qed

lemma updateMetadataAll_no_delete:
  "list_all (\<lambda>e. \<forall>x. e \<noteq> StackDelete x) (updateMetadataAll dto allIds)"
  by (auto simp: updateMetadataAll_def updateMetadata_def list_all_iff split: if_splits)

lemma shaped_plain:
  "\<not> truthyFlag (removeParent dto) \<Longrightarrow>
   shaped repos auth dto (finishUpdate auth dto (ids dto) (restOptions dto) [])"
  apply (rule exI[of _ "updateMetadataAll dto (ids dto)"])
  apply (rule exI[of _ "ids dto"])
  apply (rule exI[of _ "restOptions dto"])
  apply (rule exI[of _ "[]"])
  apply (simp add: finishUpdate_def updateMetadataAll_no_delete)
  done

lemma shaped_remove:
  "truthyFlag (removeParent dto) \<Longrightarrow>
   shaped repos auth dto (fst (removeParentBranch repos auth dto))"
  unfolding removeParentBranch_def Let_def fst_conv finishUpdate_def
  apply (rule exI[of _ "updateMetadataAll dto _"])
  apply (rule exI)+
  apply (rule conjI)
   apply (simp only: append_assoc)
  apply (simp add: updateMetadataAll_no_delete)
  done

lemma writeStack_written:
  "stackWritten primaryAsset allIds (writeStack primaryAsset allIds # es)"
  by (simp add: stackWritten_def writeStack_def split: option.splits)

lemma writeStack_no_delete: "writeStack primaryAsset allIds \<noteq> StackDelete x"
  by (simp add: writeStack_def split: option.splits)

lemma shaped_parent:
  assumes "\<not> truthyFlag (removeParent dto)" "truthyValue (stackParentId dto) = Some parent"
  shows "fst (stackParentBranch repos auth dto parent) = []
         \<or> shaped repos auth dto (fst (stackParentBranch repos auth dto parent))"
proof (cases "requirePermission repos auth Permission_ASSET_UPDATE [parent]")
  case (Some e)
  then show ?thesis by (simp add: stackParentBranch_def)
next
  case None
  show ?thesis
  proof (cases "getById repos parent")
    case N: None
    then show ?thesis using None by (simp add: stackParentBranch_def)
  next
    case (Some primaryAsset)
    have "shaped repos auth dto (fst (stackParentBranch repos auth dto parent))"
      unfolding stackParentBranch_def Let_def finishUpdate_def
      apply (simp only: None Some option.case fst_conv)
      apply (rule exI[of _ "writeStack primaryAsset _ # updateMetadataAll dto _"])
      apply (rule exI)+
      apply (rule conjI)
       apply (simp only: append_assoc append_Cons)
      apply (simp add: updateMetadataAll_no_delete writeStack_no_delete writeStack_written
               assms Some)
      done
    then show ?thesis ..
  qed
qed

lemma updateAll_shape:
  "fst (updateAll repos auth dto) = [] \<or> shaped repos auth dto (fst (updateAll repos auth dto))"
  using shaped_plain[where dto = dto and repos = repos and auth = auth]
        shaped_remove[where dto = dto and repos = repos and auth = auth]
        shaped_parent[where dto = dto and repos = repos and auth = auth]
  by (auto simp: updateAll_def split: option.splits)

lemma updateMetadataAll_no_stack_write:
  "filter isStackWrite (updateMetadataAll dto allIds) = []"
  by (induction allIds) (simp_all add: updateMetadataAll_def updateMetadata_def)

lemma deletes_no_stack_write: "filter isStackWrite (map StackDelete dels) = []"
  by (induction dels) simp_all

lemma removeParent_no_stack_write:
  "truthyFlag (removeParent dto) \<Longrightarrow> filter isStackWrite (fst (updateAll repos auth dto)) = []"
  by (simp add: updateAll_def removeParentBranch_def finishUpdate_def Let_def
        updateMetadataAll_no_stack_write deletes_no_stack_write
      split: option.splits)

text \<open>
  C7 (as the code has it). A run that removes the parent of \<open>b2\<close> marks the stack
  \<open>s2\<close> for deletion and deletes it with no create or save of any stack before it: the
  only call before the delete is the bulk asset update.
\<close>

theorem removeParent_deletes_without_stack_write:
  "updateAll (storeOf exampleRows) user1 ((bulk [''b2''])\<lparr>removeParent := Some True\<rparr>)
     = ([AssetUpdateAll [''b2'', ''b1'']
           \<lparr>opt_stackParentId = None, opt_isFavorite = None, opt_isArchived = None,
            opt_stackNull = True, opt_updatedAt = None\<rparr>,
         StackDelete ''s2'',
         Send ASSET_UPDATE ''user-1'' (ManyIds [''b2'', ''b1''])],
        None)"
  by (simp add: updateAll_def requirePermission_def bulk_def truthyFlag_def truthyValue_def
        removeParentBranch_def example_defs finishUpdate_def
        updateMetadataAll_def updateMetadata_def restOptions_def newSet_def Let_def)

text \<open>
  C7, amended. Whenever a run of \<open>updateAll\<close> issues a delete on the stack store, the
  bulk asset update has been issued before it. When the run sets a stack parent
  (\<open>removeParent\<close> not set), the create or save of the destination stack, with the parent
  as \<open>primaryAssetId\<close> and the id list of the bulk update as its members, has been issued
  before it too. When the run removes parents there is no destination stack: the run
  creates and saves no stack at all, and the bulk update that precedes the deletes carries
  \<open>stack: null\<close>. After a delete come only further deletes and the notification: no
  stack write and no bulk update follows it.
\<close>

theorem updateAll_deletes_after_writes:
  assumes "fst (updateAll repos auth dto) = ys @ StackDelete s # zs"
  shows "(\<exists>allIds options. AssetUpdateAll allIds options \<in> set ys
            \<and> (truthyFlag (removeParent dto) \<longrightarrow> opt_stackNull options)
            \<and> (\<not> truthyFlag (removeParent dto) \<longrightarrow>
                 (\<exists>parent primaryAsset. truthyValue (stackParentId dto) = Some parent
                    \<and> getById repos parent = Some primaryAsset
                    \<and> stackWritten primaryAsset allIds ys)))
       \<and> (truthyFlag (removeParent dto) \<longrightarrow>
            filter isStackWrite (fst (updateAll repos auth dto)) = [])
       \<and> (\<forall>e \<in> set zs. (\<exists>x. e = StackDelete x) \<or> (\<exists>u p. e = Send ASSET_UPDATE u p))"
proof -
  from assms updateAll_shape[of repos auth dto]
  have "shaped repos auth dto (ys @ StackDelete s # zs)" by auto
  then obtain pre allIds options dels where
    e: "ys @ StackDelete s # zs = (pre @ [AssetUpdateAll allIds options]) @ map StackDelete dels
            @ [Send ASSET_UPDATE (user_id auth) (ManyIds allIds)]"
    and p: "list_all (\<lambda>e. \<forall>x. e \<noteq> StackDelete x) pre"
    and r: "truthyFlag (removeParent dto) \<longrightarrow> opt_stackNull options"
    and w: "\<not> truthyFlag (removeParent dto) \<longrightarrow> dels \<noteq> [] \<longrightarrow>
            (\<exists>parent primaryAsset. truthyValue (stackParentId dto) = Some parent
               \<and> getById repos parent = Some primaryAsset
               \<and> stackWritten primaryAsset allIds pre)"
    by (auto split: if_splits)
  have p': "\<forall>e \<in> set (pre @ [AssetUpdateAll allIds options]). \<forall>x. e \<noteq> StackDelete x"
    using p by (simp add: list_all_iff)
  from split_deletes[OF e[symmetric] p'] obtain d1 d2 where
    d: "dels = d1 @ s # d2" "ys = (pre @ [AssetUpdateAll allIds options]) @ map StackDelete d1"
       "zs = map StackDelete d2 @ [Send ASSET_UPDATE (user_id auth) (ManyIds allIds)]"
    by auto
  have sub: "\<And>pa. stackWritten pa allIds pre \<Longrightarrow> stackWritten pa allIds ys"
    using d(2) by (auto simp: stackWritten_def split: option.splits)
  have "AssetUpdateAll allIds options \<in> set ys" using d(2) by simp
  moreover have "\<not> truthyFlag (removeParent dto) \<longrightarrow>
                 (\<exists>parent primaryAsset. truthyValue (stackParentId dto) = Some parent
                    \<and> getById repos parent = Some primaryAsset
                    \<and> stackWritten primaryAsset allIds ys)"
    using w d(1) sub by blast
  moreover have "\<forall>e \<in> set zs. (\<exists>x. e = StackDelete x) \<or> (\<exists>u p. e = Send ASSET_UPDATE u p)"
    using d(3) by auto
  ultimately show ?thesis using r removeParent_no_stack_write[of dto repos auth] by blast
qed

lemma stack_under_a1:
  "updateAll (storeOf exampleRows) user1 ((bulk [''b2''])\<lparr>stackParentId := Some ''a1''\<rparr>)
     = ([StackSave ''s1'' (Some ''a1'')
           (Some [''b2'', ''a1'', ''a1'', ''a2'', ''a3'', ''b1'', ''b2'']),
         AssetUpdateAll [''b2'', ''a1'', ''a1'', ''a2'', ''a3'', ''b1'', ''b2'']
           \<lparr>opt_stackParentId = None, opt_isFavorite = None, opt_isArchived = None,
            opt_stackNull = False, opt_updatedAt = Some 0\<rparr>,
         StackDelete ''s2'',
         Send ASSET_UPDATE ''user-1''
           (ManyIds [''b2'', ''a1'', ''a1'', ''a2'', ''a3'', ''b1'', ''b2''])],
        None)"
  by (simp add: updateAll_def requirePermission_def bulk_def truthyFlag_def truthyValue_def
        stackParentBranch_def example_defs writeStack_def finishUpdate_def
        updateMetadataAll_def updateMetadata_def restOptions_def newSet_def Let_def)

theorem updateAll_deletes_after_writes_witness:
  "fst (updateAll (storeOf exampleRows) user1 ((bulk [''b2''])\<lparr>stackParentId := Some ''a1''\<rparr>))
     = [StackSave ''s1'' (Some ''a1'')
          (Some [''b2'', ''a1'', ''a1'', ''a2'', ''a3'', ''b1'', ''b2'']),
        AssetUpdateAll [''b2'', ''a1'', ''a1'', ''a2'', ''a3'', ''b1'', ''b2'']
          \<lparr>opt_stackParentId = None, opt_isFavorite = None, opt_isArchived = None,
           opt_stackNull = False, opt_updatedAt = Some 0\<rparr>]
       @ StackDelete ''s2''
       # [Send ASSET_UPDATE ''user-1''
            (ManyIds [''b2'', ''a1'', ''a1'', ''a2'', ''a3'', ''b1'', ''b2''])]
   \<and> (\<exists>allIds options parent primaryAsset.
         AssetUpdateAll allIds options
           \<in> set [StackSave ''s1'' (Some ''a1'')
                     (Some [''b2'', ''a1'', ''a1'', ''a2'', ''a3'', ''b1'', ''b2'']),
                   AssetUpdateAll [''b2'', ''a1'', ''a1'', ''a2'', ''a3'', ''b1'', ''b2'']
                     \<lparr>opt_stackParentId = None, opt_isFavorite = None, opt_isArchived = None,
                      opt_stackNull = False, opt_updatedAt = Some 0\<rparr>]
         \<and> getById (storeOf exampleRows) parent = Some primaryAsset
         \<and> stackWritten primaryAsset allIds
             [StackSave ''s1'' (Some ''a1'')
                (Some [''b2'', ''a1'', ''a1'', ''a2'', ''a3'', ''b1'', ''b2'']),
              AssetUpdateAll [''b2'', ''a1'', ''a1'', ''a2'', ''a3'', ''b1'', ''b2'']
                \<lparr>opt_stackParentId = None, opt_isFavorite = None, opt_isArchived = None,
                 opt_stackNull = False, opt_updatedAt = Some 0\<rparr>])
   \<and> fst (updateAll (storeOf exampleRows) user1 ((bulk [''b2''])\<lparr>removeParent := Some True\<rparr>))
     = [AssetUpdateAll [''b2'', ''b1'']
          \<lparr>opt_stackParentId = None, opt_isFavorite = None, opt_isArchived = None,
           opt_stackNull = True, opt_updatedAt = None\<rparr>]
       @ StackDelete ''s2'' # [Send ASSET_UPDATE ''user-1'' (ManyIds [''b2'', ''b1''])]
   \<and> (\<exists>allIds options.
         AssetUpdateAll allIds options
           \<in> set [AssetUpdateAll [''b2'', ''b1'']
                     \<lparr>opt_stackParentId = None, opt_isFavorite = None, opt_isArchived = None,
                      opt_stackNull = True, opt_updatedAt = None\<rparr>]
         \<and> opt_stackNull options)"
proof -
  let ?ys1 = "[StackSave ''s1'' (Some ''a1'')
                 (Some [''b2'', ''a1'', ''a1'', ''a2'', ''a3'', ''b1'', ''b2'']),
               AssetUpdateAll [''b2'', ''a1'', ''a1'', ''a2'', ''a3'', ''b1'', ''b2'']
                 \<lparr>opt_stackParentId = None, opt_isFavorite = None, opt_isArchived = None,
                  opt_stackNull = False, opt_updatedAt = Some 0\<rparr>]"
  let ?zs1 = "[Send ASSET_UPDATE ''user-1''
                 (ManyIds [''b2'', ''a1'', ''a1'', ''a2'', ''a3'', ''b1'', ''b2''])]"
  let ?ys2 = "[AssetUpdateAll [''b2'', ''b1'']
                 \<lparr>opt_stackParentId = None, opt_isFavorite = None, opt_isArchived = None,
                  opt_stackNull = True, opt_updatedAt = None\<rparr>]"
  let ?zs2 = "[Send ASSET_UPDATE ''user-1'' (ManyIds [''b2'', ''b1''])]"
  have e1: "fst (updateAll (storeOf exampleRows) user1
                   ((bulk [''b2''])\<lparr>stackParentId := Some ''a1''\<rparr>))
              = ?ys1 @ StackDelete ''s2'' # ?zs1"
    by (simp add: stack_under_a1)
  have e2: "fst (updateAll (storeOf exampleRows) user1
                   ((bulk [''b2''])\<lparr>removeParent := Some True\<rparr>))
              = ?ys2 @ StackDelete ''s2'' # ?zs2"
    by (simp add: updateAll_def requirePermission_def bulk_def truthyFlag_def truthyValue_def
          removeParentBranch_def example_defs finishUpdate_def
          updateMetadataAll_def updateMetadata_def restOptions_def newSet_def Let_def)
  have f1: "\<not> truthyFlag (removeParent ((bulk [''b2''])\<lparr>stackParentId := Some ''a1''\<rparr>))"
    and f2: "truthyFlag (removeParent ((bulk [''b2''])\<lparr>removeParent := Some True\<rparr>))"
    by (simp_all add: bulk_def truthyFlag_def)
  from updateAll_deletes_after_writes[OF e1] f1
  have c1: "\<exists>allIds options parent primaryAsset.
         AssetUpdateAll allIds options \<in> set ?ys1
         \<and> getById (storeOf exampleRows) parent = Some primaryAsset
         \<and> stackWritten primaryAsset allIds ?ys1"
    by blast
  from updateAll_deletes_after_writes[OF e2] f2
  have c2: "\<exists>allIds options. AssetUpdateAll allIds options \<in> set ?ys2 \<and> opt_stackNull options"
    by blast
  show ?thesis using e1 e2 c1 c2 by blast
qed

text \<open>
  C3 (as the code has it). A target id that does not resolve is not detected: with the
  access guard granting the request, the bulk update is issued for it and no error is
  thrown. And with \<open>removeParent\<close> set, a \<open>stackParentId\<close> the caller may not update
  is not checked: the run mutates the store and throws nothing.
\<close>

theorem missing_target_not_detected:
  "getById (storeOf []) ''missing'' = None
   \<and> updateAll (storeOf []) user1 (bulk [''missing''])
       = ([AssetUpdateAll [''missing'']
             \<lparr>opt_stackParentId = None, opt_isFavorite = None, opt_isArchived = None,
              opt_stackNull = False, opt_updatedAt = None\<rparr>,
           Send ASSET_UPDATE ''user-1'' (ManyIds [''missing''])],
          None)
   \<and> \<not> access guarded user1 Permission_ASSET_UPDATE [''a1'']
   \<and> updateAll guarded user1
        ((bulk [''b2''])\<lparr>removeParent := Some True, stackParentId := Some ''a1''\<rparr>)
       = ([AssetUpdateAll [''b2'', ''b1'']
             \<lparr>opt_stackParentId = Some ''a1'', opt_isFavorite = None, opt_isArchived = None,
              opt_stackNull = True, opt_updatedAt = None\<rparr>,
           StackDelete ''s2'',
           Send ASSET_UPDATE ''user-1'' (ManyIds [''b2'', ''b1''])],
          None)"
  by (simp add: updateAll_def requirePermission_def bulk_def truthyFlag_def truthyValue_def
        removeParentBranch_def guarded_def example_defs finishUpdate_def
        updateMetadataAll_def updateMetadata_def restOptions_def newSet_def Let_def)

text \<open>
  C3, amended. \<open>updateAll\<close> fails with \<open>NotFound\<close> exactly when the caller has update
  permission on \<open>ids\<close>, \<open>removeParent\<close> is not set, \<open>stackParentId\<close> is supplied, the
  caller has update permission on it, and it does not resolve to an existing asset; a
  target id in \<open>ids\<close> that does not resolve raises no error in \<open>updateAll\<close>. When
  \<open>removeParent\<close> is not set, \<open>stackParentId\<close> is supplied and the caller lacks update
  permission on it, the operation fails with \<open>Forbidden\<close> and has issued no effect. Every
  run that fails has issued no effect.
\<close>

theorem updateAll_failures:
  "(snd (updateAll repos auth dto) = Some NotFound
      \<longleftrightarrow> access repos auth Permission_ASSET_UPDATE (ids dto)
          \<and> \<not> truthyFlag (removeParent dto)
          \<and> (\<exists>parent. truthyValue (stackParentId dto) = Some parent
                \<and> access repos auth Permission_ASSET_UPDATE [parent]
                \<and> getById repos parent = None))
   \<and> (\<forall>parent. \<not> truthyFlag (removeParent dto)
         \<and> truthyValue (stackParentId dto) = Some parent
         \<and> \<not> access repos auth Permission_ASSET_UPDATE [parent]
        \<longrightarrow> updateAll repos auth dto = ([], Some Forbidden))
   \<and> (snd (updateAll repos auth dto) \<noteq> None \<longrightarrow> fst (updateAll repos auth dto) = [])"
  by (auto simp: updateAll_def requirePermission_def removeParentBranch_def
                 stackParentBranch_def Let_def
           split: option.splits if_splits)

theorem updateAll_failures_witness:
  "access (storeOf exampleRows) user1 Permission_ASSET_UPDATE [''b2'']
   \<and> truthyValue (stackParentId ((bulk [''b2''])\<lparr>stackParentId := Some ''zz''\<rparr>)) = Some ''zz''
   \<and> getById (storeOf exampleRows) ''zz'' = None
   \<and> updateAll (storeOf exampleRows) user1 ((bulk [''b2''])\<lparr>stackParentId := Some ''zz''\<rparr>)
       = ([], Some NotFound)
   \<and> \<not> access guarded user1 Permission_ASSET_UPDATE [''a1'']
   \<and> updateAll guarded user1 ((bulk [''b2''])\<lparr>stackParentId := Some ''a1''\<rparr>)
       = ([], Some Forbidden)"
proof -
  have a: "access (storeOf exampleRows) user1 Permission_ASSET_UPDATE [''b2'']"
    "access (storeOf exampleRows) user1 Permission_ASSET_UPDATE [''zz'']"
    "\<not> access guarded user1 Permission_ASSET_UPDATE [''a1'']"
    by (simp_all add: storeOf_def guarded_def)
  have t: "truthyValue (stackParentId ((bulk [''b2''])\<lparr>stackParentId := Some ''zz''\<rparr>)) = Some ''zz''"
    "truthyValue (stackParentId ((bulk [''b2''])\<lparr>stackParentId := Some ''a1''\<rparr>)) = Some ''a1''"
    by (simp_all add: truthyValue_def bulk_def)
  have r: "\<not> truthyFlag (removeParent ((bulk [''b2''])\<lparr>stackParentId := Some ''zz''\<rparr>))"
    "\<not> truthyFlag (removeParent ((bulk [''b2''])\<lparr>stackParentId := Some ''a1''\<rparr>))"
    "ids ((bulk [''b2''])\<lparr>stackParentId := Some ''zz''\<rparr>) = [''b2'']"
    by (simp_all add: truthyFlag_def bulk_def)
  have g: "getById (storeOf exampleRows) ''zz'' = None"
    by (simp add: example_defs)
  note n = updateAll_failures[of "storeOf exampleRows" user1
             "(bulk [''b2''])\<lparr>stackParentId := Some ''zz''\<rparr>"]
  note f = updateAll_failures[of guarded user1
             "(bulk [''b2''])\<lparr>stackParentId := Some ''a1''\<rparr>"]
  have 1: "snd (updateAll (storeOf exampleRows) user1
                  ((bulk [''b2''])\<lparr>stackParentId := Some ''zz''\<rparr>)) = Some NotFound"
    using n a t r g by simp
  then have 2: "fst (updateAll (storeOf exampleRows) user1
                  ((bulk [''b2''])\<lparr>stackParentId := Some ''zz''\<rparr>)) = []"
    using n by simp
  have 3: "updateAll (storeOf exampleRows) user1 ((bulk [''b2''])\<lparr>stackParentId := Some ''zz''\<rparr>)
       = ([], Some NotFound)"
    using 1 2 by (simp add: prod_eq_iff)
  have 4: "updateAll guarded user1 ((bulk [''b2''])\<lparr>stackParentId := Some ''a1''\<rparr>)
       = ([], Some Forbidden)"
    using f a(3) t(2) r(2) by blast
  show ?thesis using a t g 3 4 by simp
qed

end
